theory Spec2Isabelle
  imports Main "HOL-Library.Word"
begin

section \<open>Data model of the chain core (core/chain/chain.go)\<close>

text \<open>
  Go's \<^verbatim>\<open>[]byte\<close> is a list of 8-bit characters; a nil slice is the empty list, and
  \<^verbatim>\<open>reflect.DeepEqual\<close> on two byte slices is equality of the lists (header hashes
  are never empty, so nil and the empty slice are not told apart here).
  \<^verbatim>\<open>uint64\<close> is a 64-bit word: subtraction wraps around.
\<close>

type_synonym bytes = string
type_synonym uint64 = "64 word"
type_synonym uint256 = "256 word"

text \<open>A panic of the Go runtime, and the \<^verbatim>\<open>error\<close> values the chain returns.\<close>

datatype fault = NilDereference | IndexOutOfRange

datatype error = NoBlockFound | AlternateGenesisDiffers | CoinbaseValidationFailed | KeyNotFound

text \<open>The protobuf records the chain reads; only the fields that chain.go touches.\<close>

record transaction =
  transaction_hash :: bytes
  addr_from_pk :: bytes
  ots_key :: uint64
  addrs_to :: "bytes list"
  addr_to :: bytes

record block =
  header_hash :: bytes
  prev_header_hash :: bytes
  block_number :: uint64
  block_size :: int
  transactions :: "transaction list"

text \<open>
  Difficulties are stored as 256-bit big-endian byte strings and compared as numbers
  (through \<^verbatim>\<open>big.Int\<close>); the model keeps the 256-bit number.
\<close>

record block_metadata =
  block_difficulty :: uint256
  total_difficulty :: uint256
  child_header_hashes :: "bytes list"

record block_number_mapping =
  headerhash :: bytes
  prev_headerhash :: bytes

record address_state =
  address :: bytes
  balance :: uint64
  nonce :: uint64
  ots_consumed :: "uint64 set"

record fork_state =
  initiator_headerhash :: bytes
  fork_point_headerhash :: bytes
  old_mainchain_hash_path :: "bytes list"
  new_mainchain_hash_path :: "bytes list"

type_synonym addresses_state = "bytes \<rightharpoonup> address_state"

subsection \<open>The Store\<close>

text \<open>
  Modelled from the spec: package core/state (the Store) is not among the sources. The
  spec gives its typed views (blocks by header-hash, block-number mapping, per-block
  metadata, address states, chain-height marker, one optional fork-state record,
  transaction-metadata indices) and its write discipline: a write given a batch is
  recorded in the batch and lands when \<^verbatim>\<open>WriteBatch\<close> commits the batch atomically; a
  write given a nil batch lands immediately. The two deletions
  (\<^verbatim>\<open>RemoveBlockNumberMapping\<close>, \<^verbatim>\<open>DeleteForkState\<close>) take no batch and land
  immediately. The field \<open>journal\<close> is a ghost field: the list of atomic commits made so
  far, one entry per immediate write or per written batch.
\<close>

datatype write_op =
    W_PutBlock block
  | W_PutBlockNumberMapping uint64 block_number_mapping
  | W_RemoveBlockNumberMapping uint64
  | W_PutBlockMetaData bytes block_metadata
  | W_PutAddressesState addresses_state
  | W_PutChainHeight uint64
  | W_PutForkState fork_state
  | W_DeleteForkState
  | W_UpdateTxMetadata block
  | W_RollbackTxMetadata block

type_synonym batch = "write_op list"

record store =
  blocks :: "bytes \<rightharpoonup> block"
  number_mapping :: "uint64 \<rightharpoonup> block_number_mapping"
  metadata_db :: "bytes \<rightharpoonup> block_metadata"
  addresses :: "bytes \<rightharpoonup> address_state"
  chain_height :: "uint64 option"
  fork_state_db :: "fork_state option"
  tx_metadata :: "bytes \<rightharpoonup> uint64"
  journal :: "batch list"

fun apply_write :: "write_op \<Rightarrow> store \<Rightarrow> store" where
  "apply_write (W_PutBlock b) s = s\<lparr>blocks := (blocks s)(header_hash b \<mapsto> b)\<rparr>"
| "apply_write (W_PutBlockNumberMapping n m) s = s\<lparr>number_mapping := (number_mapping s)(n \<mapsto> m)\<rparr>"
| "apply_write (W_RemoveBlockNumberMapping n) s = s\<lparr>number_mapping := (number_mapping s)(n := None)\<rparr>"
| "apply_write (W_PutBlockMetaData h m) s = s\<lparr>metadata_db := (metadata_db s)(h \<mapsto> m)\<rparr>"
| "apply_write (W_PutAddressesState a) s = s\<lparr>addresses := addresses s ++ a\<rparr>"
| "apply_write (W_PutChainHeight h) s = s\<lparr>chain_height := Some h\<rparr>"
| "apply_write (W_PutForkState f) s = s\<lparr>fork_state_db := Some f\<rparr>"
| "apply_write W_DeleteForkState s = s\<lparr>fork_state_db := None\<rparr>"
| "apply_write (W_UpdateTxMetadata b) s =
     s\<lparr>tx_metadata := (\<lambda>h. if h \<in> transaction_hash ` set (transactions b)
                              then Some (block_number b) else tx_metadata s h)\<rparr>"
| "apply_write (W_RollbackTxMetadata b) s =
     s\<lparr>tx_metadata := (\<lambda>h. if h \<in> transaction_hash ` set (transactions b)
                              then None else tx_metadata s h)\<rparr>"

text \<open>One atomic commit: all writes land, and the journal gets one entry.\<close>

definition commit :: "batch \<Rightarrow> store \<Rightarrow> store" where
  "commit ws s = (fold apply_write ws s)\<lparr>journal := journal s @ [ws]\<rparr>"

subsection \<open>Collaborators and configuration\<close>

text \<open>
  The packages block, transactions, genesis, pow and config are not among the sources
  either. What chain.go calls in them is taken as a parameter: one record of functions
  and constants, fixed during a run. \<open>write_fails\<close> says which Store writes report an
  error (serialisation or I/O); a failed write leaves store and batch as they were.
\<close>

record env =
  reorg_limit :: uint64
  mining_setpoint_blocktime :: uint64
  genesis_difficulty :: uint256
  difficulty_get :: "uint64 \<Rightarrow> uint256 \<Rightarrow> uint256"
  block_size_limit :: "store \<Rightarrow> block \<Rightarrow> int option"
  prepare_addresses_list :: "block \<Rightarrow> bytes list"
  apply_state_changes :: "block \<Rightarrow> addresses_state \<Rightarrow> bool \<times> addresses_state"
  tx_apply_state_changes :: "transaction \<Rightarrow> addresses_state \<Rightarrow> addresses_state"
  tx_revert_state_changes :: "transaction \<Rightarrow> addresses_state \<Rightarrow> addresses_state"
  validate_extended_coinbase :: "transaction \<Rightarrow> uint64 \<Rightarrow> bool"
  genesis_balance :: "(bytes \<times> uint64) list"
  genesis_transactions :: "transaction list"
  genesis_block_number :: uint64
  write_fails :: "write_op \<Rightarrow> bool"

text \<open>
  A \<^verbatim>\<open>Put...(x, batch)\<close> of the Store: the batch is \<open>None\<close> for Go's nil. Returns
  whether the write succeeded, the store and the batch.
\<close>

definition store_put :: "env \<Rightarrow> write_op \<Rightarrow> batch option \<Rightarrow> store \<Rightarrow> bool \<times> store \<times> batch option" where
  "store_put e w b s =
     (if write_fails e w then (False, s, b)
      else case b of
             None \<Rightarrow> (True, commit [w] s, None)
           | Some ws \<Rightarrow> (True, s, Some (ws @ [w])))"

definition WriteBatch :: "batch option \<Rightarrow> store \<Rightarrow> store" where
  "WriteBatch b s = (case b of None \<Rightarrow> s | Some ws \<Rightarrow> commit ws s)"

definition GetBlock :: "store \<Rightarrow> bytes \<Rightarrow> block option" where
  "GetBlock s h = blocks s h"

definition GetBlockByNumber :: "store \<Rightarrow> uint64 \<Rightarrow> block option" where
  "GetBlockByNumber s n =
     (case number_mapping s n of None \<Rightarrow> None | Some m \<Rightarrow> GetBlock s (headerhash m))"

definition GetBlockMetadata :: "store \<Rightarrow> bytes \<Rightarrow> block_metadata option" where
  "GetBlockMetadata s h = metadata_db s h"

definition GetDefaultAddressState :: "bytes \<Rightarrow> address_state" where
  "GetDefaultAddressState a = \<lparr>address = a, balance = 0, nonce = 0, ots_consumed = {}\<rparr>"

definition GetAddressesState :: "store \<Rightarrow> bytes list \<Rightarrow> addresses_state" where
  "GetAddressesState s as =
     (\<lambda>a. if a \<in> set as
          then Some (case addresses s a of None \<Rightarrow> GetDefaultAddressState a | Some st \<Rightarrow> st)
          else None)"

text \<open>The transaction pool is a collaborator; the model keeps the calls made to it.\<close>

datatype pool_call =
    RemoveTxInBlock block
  | CheckStale uint64
  | AddTxFromBlock block uint64

section \<open>The Chain\<close>

record chain =
  state :: store
  txPool :: "pool_call list"
  lastBlock :: "block option"
  currentDifficulty :: uint256
  triggerMiner :: bool

text \<open>
  \<^verbatim>\<open>Height\<close> reads the tip's block number; every method of a block reads the record
  behind the pointer, so on a nil tip it is a nil dereference.
\<close>

definition Height :: "chain \<Rightarrow> fault + uint64" where
  "Height c = (case lastBlock c of None \<Rightarrow> Inl NilDereference | Some b \<Rightarrow> Inr (block_number b))"

text \<open>
  The first check of \<^verbatim>\<open>AddBlock\<close>:
  \<^verbatim>\<open>block.BlockNumber() < c.Height() - c.config.Dev.ReorgLimit\<close>, all three of type
  \<^verbatim>\<open>uint64\<close>.
\<close>

definition beyond_reorg_limit :: "env \<Rightarrow> uint64 \<Rightarrow> block \<Rightarrow> bool" where
  "beyond_reorg_limit e h b = (block_number b < h - reorg_limit e)"

subsection \<open>Apply and revert\<close>

text \<open>
  \<^verbatim>\<open>applyBlock\<close>: load the touched addresses, let the block change them, write them
  into the batch. Returns the success flag with the store and the batch.
\<close>

definition applyBlock :: "env \<Rightarrow> store \<Rightarrow> block \<Rightarrow> batch option \<Rightarrow> bool \<times> store \<times> batch option" where
  "applyBlock e s b bt =
     (let addressesState = GetAddressesState s (prepare_addresses_list e b) in
      case apply_state_changes e b addressesState of
        (False, _) \<Rightarrow> (False, s, bt)
      | (True, addressesState') \<Rightarrow>
          (case store_put e (W_PutAddressesState addressesState') bt s of
             (False, s', bt') \<Rightarrow> (False, s', bt')
           | (True, s', bt') \<Rightarrow> (True, s', bt')))"

definition updateBlockNumberMapping :: "env \<Rightarrow> store \<Rightarrow> block \<Rightarrow> batch option \<Rightarrow> store \<times> batch option" where
  "updateBlockNumberMapping e s b bt =
     (let blockNumberMapping = \<lparr>headerhash = header_hash b, prev_headerhash = prev_header_hash b\<rparr>
      in snd (store_put e (W_PutBlockNumberMapping (block_number b) blockNumberMapping) bt s))"

definition updateChainState :: "env \<Rightarrow> chain \<Rightarrow> block \<Rightarrow> batch option \<Rightarrow> chain \<times> batch option" where
  "updateChainState e c b bt =
     (let c1 = c\<lparr>lastBlock := Some b\<rparr>;
          (s2, bt2) = updateBlockNumberMapping e (state c1) b bt;
          c2 = c1\<lparr>state := s2, txPool := txPool c1 @ [RemoveTxInBlock b]\<rparr>;
          (s3, bt3) = snd (store_put e (W_PutChainHeight (block_number b)) bt2 (state c2));
          (s4, bt4) = snd (store_put e (W_UpdateTxMetadata b) bt3 s3)
      in (c2\<lparr>state := s4\<rparr>, bt4))"

text \<open>
  Modelled from the spec: \<^verbatim>\<open>UnsetOTSKey\<close> of the Store clears the consumed
  one-time-signature index in the given address state. The call dereferences the map
  entry of the sender, \<^verbatim>\<open>*addressesState[tx.AddrFromPK()]\<close>: a missing entry is nil.
\<close>

definition UnsetOTSKey :: "addresses_state \<Rightarrow> bytes \<Rightarrow> uint64 \<Rightarrow> fault + addresses_state" where
  "UnsetOTSKey as a k =
     (case as a of
        None \<Rightarrow> Inl NilDereference
      | Some st \<Rightarrow> Inr (as(a \<mapsto> st\<lparr>ots_consumed := ots_consumed st - {k}\<rparr>)))"

text \<open>
  The transaction loop of \<^verbatim>\<open>RemoveBlockFromMainchain\<close>,
  \<^verbatim>\<open>for i := len(txs) - 1; i <= 0; i--\<close>, with \<open>i\<close> the loop variable (a Go
  \<^verbatim>\<open>int\<close>). Indexing outside the slice panics.
\<close>

function revert_loop :: "env \<Rightarrow> transaction list \<Rightarrow> int \<Rightarrow> addresses_state \<Rightarrow> fault + addresses_state" where
  "revert_loop e txs i as =
     (if i \<le> 0 then
        (if i < 0 \<or> int (length txs) \<le> i then Inl IndexOutOfRange
         else let tx = txs ! nat i;
                  as1 = tx_revert_state_changes e tx as
              in case UnsetOTSKey as1 (addr_from_pk tx) (ots_key tx) of
                   Inl f \<Rightarrow> Inl f
                 | Inr as2 \<Rightarrow> revert_loop e txs (i - 1) as2)
      else Inr as)"
  by pat_completeness auto
termination
  by (relation "measure (\<lambda>(e, txs, i, as). if i = 0 then 1 else 0)") auto

definition RemoveBlockFromMainchain ::
  "env \<Rightarrow> chain \<Rightarrow> block \<Rightarrow> uint64 \<Rightarrow> batch option \<Rightarrow> fault + chain \<times> batch option" where
  "RemoveBlockFromMainchain e c b blockNumber bt =
     (let addressesState = GetAddressesState (state c) (prepare_addresses_list e b) in
      case revert_loop e (transactions b) (int (length (transactions b)) - 1) addressesState of
        Inl f \<Rightarrow> Inl f
      | Inr addressesState' \<Rightarrow>
          (let c1 = c\<lparr>txPool := txPool c @ [AddTxFromBlock b blockNumber]\<rparr>;
               (s2, bt2) = snd (store_put e (W_PutChainHeight (block_number b - 1)) bt (state c1));
               (s3, bt3) = snd (store_put e (W_RollbackTxMetadata b) bt2 s2);
               s4 = commit [W_RemoveBlockNumberMapping (block_number b)] s3;
               (s5, bt5) = snd (store_put e (W_PutAddressesState addressesState') bt3 s4)
           in Inr (c1\<lparr>state := s5\<rparr>, bt5)))"

subsection \<open>Rollback\<close>

text \<open>
  The loop of \<^verbatim>\<open>Rollback\<close>. It follows parent links of stored blocks, which nothing
  in the code bounds, so not returning is the value \<open>None\<close>. The result is the hash
  path, the chain and the fork state (Go mutates the record behind the pointer).
\<close>

partial_function (option) Rollback_loop ::
  "env \<Rightarrow> bytes \<Rightarrow> chain \<Rightarrow> fork_state option \<Rightarrow> bytes list
     \<Rightarrow> (fault + bytes list \<times> chain \<times> fork_state option) option" where
  "Rollback_loop e forkedHeaderHash c forkState hashPath =
     (case lastBlock c of
        None \<Rightarrow> Some (Inl NilDereference)
      | Some tip \<Rightarrow>
          if header_hash tip = forkedHeaderHash then Some (Inr (hashPath, c, forkState))
          else
            (case GetBlock (state c) (header_hash tip) of
               None \<Rightarrow> Some (Inl NilDereference)
             | Some b \<Rightarrow>
                 (case GetBlockByNumber (state c) (block_number b) of
                    None \<Rightarrow> Some (Inl NilDereference)
                  | Some mainchainBlock \<Rightarrow>
                      if header_hash b = header_hash mainchainBlock
                      then Some (Inr (hashPath, c, forkState))
                      else
                        (case RemoveBlockFromMainchain e c tip (block_number b) (Some []) of
                           Inl f \<Rightarrow> Some (Inl f)
                         | Inr (c1, bt1) \<Rightarrow>
                             (let forkState' =
                                    map_option (\<lambda>fs. fs\<lparr>old_mainchain_hash_path :=
                                        old_mainchain_hash_path fs @ [header_hash tip]\<rparr>) forkState;
                                  (s2, bt2) =
                                    (case forkState' of
                                       None \<Rightarrow> (state c1, bt1)
                                     | Some fs \<Rightarrow> snd (store_put e (W_PutForkState fs) bt1 (state c1)));
                                  s3 = WriteBatch bt2 s2;
                                  c4 = c1\<lparr>state := s3,
                                          lastBlock := GetBlock s3 (prev_header_hash tip)\<rparr>
                              in Rollback_loop e forkedHeaderHash c4 forkState'
                                   (hashPath @ [header_hash tip]))))))"

definition Rollback ::
  "env \<Rightarrow> chain \<Rightarrow> bytes \<Rightarrow> fork_state option
     \<Rightarrow> (fault + bytes list \<times> chain \<times> fork_state option) option" where
  "Rollback e c forkedHeaderHash forkState = Rollback_loop e forkedHeaderHash c forkState []"

subsection \<open>Fork-point discovery\<close>

text \<open>
  The loop of \<^verbatim>\<open>GetForkPoint\<close>; \<open>block\<close> is the loop variable, nil when \<open>None\<close>.
  The nil branch builds its message from \<^verbatim>\<open>block.HeaderHash()\<close>, a nil dereference.
  The loop follows stored parent links, so not returning is the value \<open>None\<close>.
\<close>

partial_function (option) GetForkPoint_loop ::
  "store \<Rightarrow> block option \<Rightarrow> bytes list \<Rightarrow> (fault + error + bytes \<times> bytes list) option" where
  "GetForkPoint_loop s block hashPath =
     (case block of
        None \<Rightarrow> Some (Inl NilDereference)
      | Some b \<Rightarrow>
          if (case GetBlockByNumber s (block_number b) of
                None \<Rightarrow> False
              | Some mainchainBlock \<Rightarrow> header_hash mainchainBlock = header_hash b)
          then Some (Inr (Inr (header_hash b, hashPath)))
          else if block_number b = 0 then Some (Inr (Inl AlternateGenesisDiffers))
          else
            (case GetBlock s (prev_header_hash b) of
               None \<Rightarrow> Some (Inr (Inl KeyNotFound))
             | Some b' \<Rightarrow> GetForkPoint_loop s (Some b') (hashPath @ [header_hash b])))"

definition GetForkPoint :: "store \<Rightarrow> block option \<Rightarrow> (fault + error + bytes \<times> bytes list) option" where
  "GetForkPoint s block = GetForkPoint_loop s block []"

subsection \<open>Applying a branch\<close>

text \<open>
  The first loop of \<^verbatim>\<open>AddChain\<close>: the index after the first entry equal to the tip's
  header hash, 0 when there is none. \<open>i\<close> is the index of the head of the list.
\<close>

fun AddChain_start :: "bytes list \<Rightarrow> bytes \<Rightarrow> nat \<Rightarrow> nat" where
  "AddChain_start [] tipHash i = 0"
| "AddChain_start (h # hs) tipHash i = (if h = tipHash then i + 1 else AddChain_start hs tipHash (i + 1))"

text \<open>
  The second loop, over the entries from \<open>start\<close> on. A hash that is not stored gives a
  nil block, which \<^verbatim>\<open>applyBlock\<close> dereferences.
\<close>

fun AddChain_loop :: "env \<Rightarrow> chain \<Rightarrow> bytes list \<Rightarrow> fault + bool \<times> chain" where
  "AddChain_loop e c [] = Inr (True, c\<lparr>state := commit [W_DeleteForkState] (state c)\<rparr>)"
| "AddChain_loop e c (headerHash # rest) =
     (case GetBlock (state c) headerHash of
        None \<Rightarrow> Inl NilDereference
      | Some b \<Rightarrow>
          (case applyBlock e (state c) b (Some []) of
             (False, _, _) \<Rightarrow> Inr (False, c)
           | (True, s1, bt1) \<Rightarrow>
               (let (c2, bt2) = updateChainState e (c\<lparr>state := s1\<rparr>) b bt1;
                    c3 = c2\<lparr>state := WriteBatch bt2 (state c2)\<rparr>
                in AddChain_loop e c3 rest)))"

definition AddChain :: "env \<Rightarrow> chain \<Rightarrow> bytes list \<Rightarrow> fault + bool \<times> chain" where
  "AddChain e c hashPath =
     (if hashPath = [] then AddChain_loop e c []
      else case lastBlock c of
             None \<Rightarrow> Inl NilDereference
           | Some tip \<Rightarrow> AddChain_loop e c (drop (AddChain_start hashPath (header_hash tip) 0) hashPath))"

subsection \<open>Fork recovery\<close>

text \<open>
  The part of \<^verbatim>\<open>forkRecovery\<close> after the first \<^verbatim>\<open>if\<close>, as a function of the function's
  variables \<^verbatim>\<open>forkHeaderHash\<close> and \<^verbatim>\<open>hashPath\<close>. \<^verbatim>\<open>misc.Reverse\<close> is list reversal.
\<close>

definition forkRecovery_rest ::
  "env \<Rightarrow> chain \<Rightarrow> fork_state \<Rightarrow> bytes \<Rightarrow> bytes list \<Rightarrow> (fault + bool \<times> chain) option" where
  "forkRecovery_rest e c forkState forkHeaderHash hashPath =
     (let rollbackDone =
            (if length (old_mainchain_hash_path forkState) > 0
             then (case GetBlock (state c) (last (old_mainchain_hash_path forkState)) of
                     None \<Rightarrow> False
                   | Some b \<Rightarrow> prev_header_hash b = fork_point_headerhash forkState)
             else False)
      in case (if \<not> rollbackDone then Rollback e c forkHeaderHash (Some forkState)
               else Some (Inr (old_mainchain_hash_path forkState, c, Some forkState))) of
           None \<Rightarrow> None
         | Some (Inl f) \<Rightarrow> Some (Inl f)
         | Some (Inr (oldHashPath, c1, _)) \<Rightarrow>
             (case AddChain e c1 (rev hashPath) of
                Inl f \<Rightarrow> Some (Inl f)
              | Inr (False, c2) \<Rightarrow>
                  (case Rollback e c2 forkHeaderHash None of
                     None \<Rightarrow> None
                   | Some (Inl f) \<Rightarrow> Some (Inl f)
                   | Some (Inr (_, c3, _)) \<Rightarrow>
                       (case AddChain e c3 (rev oldHashPath) of
                          Inl f \<Rightarrow> Some (Inl f)
                        | Inr (_, c4) \<Rightarrow> Some (Inr (False, c4))))
              | Inr (True, c2) \<Rightarrow> Some (Inr (True, c2\<lparr>triggerMiner := True\<rparr>))))"

text \<open>
  In the else branch, \<^verbatim>\<open>forkHeaderHash, hashPath, err := c.GetForkPoint(block)\<close> declares
  new variables in the branch's scope; they are stored in the fork state, and the
  function's own \<^verbatim>\<open>forkHeaderHash\<close> and \<^verbatim>\<open>hashPath\<close> keep their zero value (nil). The
  error of \<^verbatim>\<open>GetForkPoint\<close> is dropped; its other results are then nil.
\<close>

definition forkRecovery :: "env \<Rightarrow> chain \<Rightarrow> block \<Rightarrow> fork_state \<Rightarrow> (fault + bool \<times> chain) option" where
  "forkRecovery e c b forkState =
     (if length (fork_point_headerhash forkState) > 0
      then forkRecovery_rest e c forkState
             (fork_point_headerhash forkState) (new_mainchain_hash_path forkState)
      else
        (case GetForkPoint (state c) (Some b) of
           None \<Rightarrow> None
         | Some (Inl f) \<Rightarrow> Some (Inl f)
         | Some (Inr r) \<Rightarrow>
             (let (forkHeaderHash', hashPath') = (case r of Inl err \<Rightarrow> ([], []) | Inr p \<Rightarrow> p);
                  forkState' = forkState\<lparr>fork_point_headerhash := forkHeaderHash',
                                         new_mainchain_hash_path := hashPath'\<rparr>;
                  (s1, _) = snd (store_put e (W_PutForkState forkState') None (state c))
              in forkRecovery_rest e (c\<lparr>state := s1\<rparr>) forkState' [] [])))"

subsection \<open>Block admission\<close>

definition addBlock ::
  "env \<Rightarrow> chain \<Rightarrow> block \<Rightarrow> batch option \<Rightarrow> (fault + (bool \<times> bool) \<times> chain \<times> batch option) option" where
  "addBlock e c b bt =
     (if (case block_size_limit e (state c) b of None \<Rightarrow> False | Some blockSizeLimit \<Rightarrow> block_size b > blockSizeLimit)
      then Some (Inr ((False, False), c, bt))
      else case lastBlock c of
        None \<Rightarrow> Some (Inl NilDereference)
      | Some tip \<Rightarrow>
          (case (if header_hash tip = prev_header_hash b then applyBlock e (state c) b bt
                 else (True, state c, bt)) of
             (False, s1, bt1) \<Rightarrow> Some (Inr ((False, False), c\<lparr>state := s1\<rparr>, bt1))
           | (True, s1, bt1) \<Rightarrow>
               (case store_put e (W_PutBlock b) bt1 s1 of
                  (False, s2, bt2) \<Rightarrow> Some (Inr ((False, False), c\<lparr>state := s2\<rparr>, bt2))
                | (True, s2, bt2) \<Rightarrow>
                    (case GetBlockMetadata s2 (header_hash tip) of
                       None \<Rightarrow> Some (Inl NilDereference)
                     | Some lastBlockMetadata \<Rightarrow>
                         (case GetBlockMetadata s2 (header_hash b) of
                            None \<Rightarrow> Some (Inl NilDereference)
                          | Some newBlockMetadata \<Rightarrow>
                              (let c2 = c\<lparr>state := s2\<rparr> in
                               if unat (total_difficulty newBlockMetadata) > unat (total_difficulty lastBlockMetadata)
                               then
                                 (if header_hash tip \<noteq> prev_header_hash b
                                  then
                                    (let forkState = \<lparr>initiator_headerhash = header_hash b,
                                                      fork_point_headerhash = [],
                                                      old_mainchain_hash_path = [],
                                                      new_mainchain_hash_path = []\<rparr>
                                     in case store_put e (W_PutForkState forkState) bt2 s2 of
                                          (False, s3, bt3) \<Rightarrow> Some (Inr ((False, True), c\<lparr>state := s3\<rparr>, bt3))
                                        | (True, s3, bt3) \<Rightarrow>
                                            (case forkRecovery e (c\<lparr>state := WriteBatch bt3 s3\<rparr>) b forkState of
                                               None \<Rightarrow> None
                                             | Some (Inl f) \<Rightarrow> Some (Inl f)
                                             | Some (Inr (r, c4)) \<Rightarrow> Some (Inr ((r, True), c4, bt3))))
                                  else
                                    (let (c3, bt3) = updateChainState e c2 b bt2;
                                         c4 = c3\<lparr>txPool := txPool c3 @ [CheckStale (block_number b)],
                                                 triggerMiner := True\<rparr>
                                     in Some (Inr ((True, False), c4, bt3))))
                               else Some (Inr ((True, False), c2, bt2))))))))"

definition AddBlock :: "env \<Rightarrow> chain \<Rightarrow> block \<Rightarrow> (fault + bool \<times> chain) option" where
  "AddBlock e c b =
     (case Height c of
        Inl f \<Rightarrow> Some (Inl f)
      | Inr h \<Rightarrow>
          if beyond_reorg_limit e h b then Some (Inr (False, c))
          else if GetBlock (state c) (header_hash b) \<noteq> None then Some (Inr (False, c))
          else
            (case addBlock e c b (Some []) of
               None \<Rightarrow> None
             | Some (Inl f) \<Rightarrow> Some (Inl f)
             | Some (Inr ((blockFlag, forkFlag), c1, bt1)) \<Rightarrow>
                 if blockFlag
                 then (if \<not> forkFlag then Some (Inr (True, c1\<lparr>state := WriteBatch bt1 (state c1)\<rparr>))
                       else Some (Inr (True, c1)))
                 else Some (Inr (False, c1))))"

subsection \<open>Genesis bootstrap\<close>

text \<open>
  The cold-start branch of \<^verbatim>\<open>Load\<close> builds the genesis address states in memory:
  the genesis balances, the recipients of the transfers (indices 1 and up), the
  coinbase recipient; then the coinbase and the transfers are applied.
  \<^verbatim>\<open>txs[0]\<close> panics on an empty list.
\<close>

definition genesis_addresses :: "env \<Rightarrow> addresses_state" where
  "genesis_addresses e =
     (let as0 = fold (\<lambda>(a, bal) m. m(a \<mapsto> (GetDefaultAddressState a)\<lparr>balance := bal\<rparr>))
                  (genesis_balance e) Map.empty;
          txs = genesis_transactions e
      in fold (\<lambda>tx m. fold (\<lambda>addr m'. m'(addr \<mapsto> GetDefaultAddressState addr)) (addrs_to tx) m)
           (drop 1 txs) as0)"

definition Load :: "env \<Rightarrow> chain \<Rightarrow> block \<Rightarrow> (fault + error option \<times> chain) option" where
  "Load e c genesisBlock =
     (case chain_height (state c) of
        None \<Rightarrow>
          (let (s1, _) = snd (store_put e (W_PutBlock genesisBlock) None (state c));
               blockNumberMapping = \<lparr>headerhash = header_hash genesisBlock,
                                     prev_headerhash = prev_header_hash genesisBlock\<rparr>;
               (s2, _) = snd (store_put e (W_PutBlockNumberMapping (block_number genesisBlock)
                                             blockNumberMapping) None s1);
               currentDifficulty' = difficulty_get e (mining_setpoint_blocktime e) (genesis_difficulty e);
               blockMetaData = \<lparr>block_difficulty = currentDifficulty',
                                total_difficulty = currentDifficulty',
                                child_header_hashes = []\<rparr>;
               (s3, _) = snd (store_put e (W_PutBlockMetaData (header_hash genesisBlock) blockMetaData) None s2);
               addressesState = genesis_addresses e;
               txs = genesis_transactions e
           in case txs of
                [] \<Rightarrow> Some (Inl IndexOutOfRange)
              | coinBase # transfers \<Rightarrow>
                  (let addressesState1 = addressesState(addr_to coinBase \<mapsto> GetDefaultAddressState (addr_to coinBase)) in
                   if \<not> validate_extended_coinbase e coinBase (genesis_block_number e)
                   then Some (Inr (Some CoinbaseValidationFailed, c\<lparr>state := s3\<rparr>))
                   else
                     (let addressesState2 = tx_apply_state_changes e coinBase addressesState1;
                          addressesState3 = fold (tx_apply_state_changes e) transfers addressesState2;
                          (s4, _) = snd (store_put e (W_PutAddressesState addressesState3) None s3);
                          (s5, _) = snd (store_put e (W_UpdateTxMetadata genesisBlock) None s4);
                          (s6, _) = snd (store_put e (W_PutChainHeight 0) None s5)
                      in Some (Inr (None, c\<lparr>state := s6\<rparr>)))))
      | Some h \<Rightarrow>
          (let c1 = c\<lparr>lastBlock := GetBlockByNumber (state c) h\<rparr> in
           case lastBlock c1 of
             None \<Rightarrow> Some (Inl NilDereference)
           | Some tip \<Rightarrow>
               (case GetBlockMetadata (state c1) (header_hash tip) of
                  None \<Rightarrow> Some (Inr (Some KeyNotFound, c1))
                | Some blockMetadata \<Rightarrow>
                    (let c2 = c1\<lparr>currentDifficulty := block_difficulty blockMetadata\<rparr> in
                     case fork_state_db (state c2) of
                       None \<Rightarrow> Some (Inr (None, c2))
                     | Some forkState \<Rightarrow>
                         (case GetBlock (state c2) (initiator_headerhash forkState) of
                            None \<Rightarrow> Some (Inr (Some KeyNotFound, c2))
                          | Some b \<Rightarrow>
                              (case forkRecovery e c2 b forkState of
                                 None \<Rightarrow> None
                               | Some (Inl f) \<Rightarrow> Some (Inl f)
                               | Some (Inr (_, c3)) \<Rightarrow> Some (Inr (None, c3))))))))"

text \<open>
  \<^verbatim>\<open>CreateChain\<close>, given the store that \<^verbatim>\<open>state.CreateState\<close> returned: the other
  fields have Go's zero values, so the tip is nil.
\<close>

definition CreateChain :: "store \<Rightarrow> chain" where
  "CreateChain s = \<lparr>state = s, txPool = [], lastBlock = None, currentDifficulty = 0, triggerMiner = False\<rparr>"

section \<open>A small chain to run the code on\<close>

text \<open>
  A genesis block \<open>G\<close>, its child \<open>B1\<close> (the tip), a side block \<open>B1x\<close> on \<open>G\<close> and
  \<open>B2x\<close> on \<open>B1x\<close>, heavier than \<open>B1\<close>. Every block has block difficulty 10, and its
  cumulative difficulty is its parent's plus 10. A coinbase credits one coin to its
  recipient, a transfer credits one coin to each recipient and consumes the sender's
  one-time-signature index; a block without transactions (no coinbase) does not apply.
\<close>

definition ex_coinbase :: "bytes \<Rightarrow> bytes \<Rightarrow> transaction" where
  "ex_coinbase h miner =
     \<lparr>transaction_hash = h, addr_from_pk = ''coinbase'', ots_key = 0, addrs_to = [], addr_to = miner\<rparr>"

definition ex_transfer :: "bytes \<Rightarrow> bytes \<Rightarrow> uint64 \<Rightarrow> bytes \<Rightarrow> transaction" where
  "ex_transfer h sender k recipient =
     \<lparr>transaction_hash = h, addr_from_pk = sender, ots_key = k, addrs_to = [recipient], addr_to = []\<rparr>"

definition ex_G :: block where
  "ex_G = \<lparr>header_hash = ''G'', prev_header_hash = ''0'', block_number = 0, block_size = 100,
           transactions = [ex_coinbase ''g0'' ''alice'', ex_transfer ''g1'' ''alice'' 0 ''bob'']\<rparr>"

definition ex_B1 :: block where
  "ex_B1 = \<lparr>header_hash = ''B1'', prev_header_hash = ''G'', block_number = 1, block_size = 100,
            transactions = [ex_coinbase ''t0'' ''alice'', ex_transfer ''t1'' ''alice'' 1 ''bob'']\<rparr>"

definition ex_B1x :: block where
  "ex_B1x = \<lparr>header_hash = ''B1x'', prev_header_hash = ''G'', block_number = 1, block_size = 100,
             transactions = [ex_coinbase ''u0'' ''carol'', ex_transfer ''u1'' ''alice'' 1 ''carol'']\<rparr>"

definition ex_B2x :: block where
  "ex_B2x = \<lparr>header_hash = ''B2x'', prev_header_hash = ''B1x'', block_number = 2, block_size = 100,
             transactions = [ex_coinbase ''v0'' ''carol'', ex_transfer ''v1'' ''alice'' 2 ''carol'']\<rparr>"

definition ex_B2 :: block where
  "ex_B2 = \<lparr>header_hash = ''B2'', prev_header_hash = ''B1'', block_number = 2, block_size = 100,
            transactions = [ex_coinbase ''w0'' ''alice'', ex_transfer ''w1'' ''alice'' 2 ''bob'']\<rparr>"

definition ex_Bbad :: block where
  "ex_Bbad = \<lparr>header_hash = ''Bbad'', prev_header_hash = ''B1'', block_number = 2, block_size = 100,
              transactions = []\<rparr>"

definition ex_credit :: "bytes \<Rightarrow> addresses_state \<Rightarrow> addresses_state" where
  "ex_credit a as = (case as a of None \<Rightarrow> as | Some st \<Rightarrow> as(a \<mapsto> st\<lparr>balance := balance st + 1\<rparr>))"

definition ex_debit :: "bytes \<Rightarrow> addresses_state \<Rightarrow> addresses_state" where
  "ex_debit a as = (case as a of None \<Rightarrow> as | Some st \<Rightarrow> as(a \<mapsto> st\<lparr>balance := balance st - 1\<rparr>))"

definition ex_tx_apply :: "transaction \<Rightarrow> addresses_state \<Rightarrow> addresses_state" where
  "ex_tx_apply tx as =
     (let as1 = fold ex_credit (addr_to tx # addrs_to tx) as in
      case as1 (addr_from_pk tx) of
        None \<Rightarrow> as1
      | Some st \<Rightarrow> as1(addr_from_pk tx \<mapsto> st\<lparr>ots_consumed := insert (ots_key tx) (ots_consumed st)\<rparr>))"

definition ex_tx_revert :: "transaction \<Rightarrow> addresses_state \<Rightarrow> addresses_state" where
  "ex_tx_revert tx as = fold ex_debit (addr_to tx # addrs_to tx) as"

definition ex_env :: env where
  "ex_env = \<lparr>reorg_limit = 1, mining_setpoint_blocktime = 60, genesis_difficulty = 10,
     difficulty_get = (\<lambda>t d. d),
     block_size_limit = (\<lambda>s b. Some 1000),
     prepare_addresses_list =
       (\<lambda>b. filter (\<lambda>a. a \<noteq> [])
              (concat (map (\<lambda>tx. addr_from_pk tx # addr_to tx # addrs_to tx) (transactions b)))),
     apply_state_changes = (\<lambda>b as. (transactions b \<noteq> [], fold ex_tx_apply (transactions b) as)),
     tx_apply_state_changes = ex_tx_apply,
     tx_revert_state_changes = ex_tx_revert,
     validate_extended_coinbase = (\<lambda>tx n. True),
     genesis_balance = [(''alice'', 100), (''bob'', 0)],
     genesis_transactions = transactions ex_G,
     genesis_block_number = 0,
     write_fails = (\<lambda>w. False)\<rparr>"

definition ex_empty_store :: store where
  "ex_empty_store = \<lparr>blocks = Map.empty, number_mapping = Map.empty, metadata_db = Map.empty,
     addresses = Map.empty, chain_height = None, fork_state_db = None, tx_metadata = Map.empty,
     journal = []\<rparr>"

definition ex_meta :: "uint256 \<Rightarrow> block_metadata" where
  "ex_meta d = \<lparr>block_difficulty = 10, total_difficulty = d, child_header_hashes = []\<rparr>"

definition ex_mapping :: "block \<Rightarrow> block_number_mapping" where
  "ex_mapping b = \<lparr>headerhash = header_hash b, prev_headerhash = prev_header_hash b\<rparr>"

definition ex_store :: store where
  "ex_store = \<lparr>blocks = [''G'' \<mapsto> ex_G, ''B1'' \<mapsto> ex_B1, ''B1x'' \<mapsto> ex_B1x],
     number_mapping = [0 \<mapsto> ex_mapping ex_G, 1 \<mapsto> ex_mapping ex_B1],
     metadata_db = [''G'' \<mapsto> ex_meta 10, ''B1'' \<mapsto> ex_meta 20, ''B1x'' \<mapsto> ex_meta 20,
                    ''B2x'' \<mapsto> ex_meta 30, ''B2'' \<mapsto> ex_meta 30, ''Bbad'' \<mapsto> ex_meta 30],
     addresses = [''alice'' \<mapsto> \<lparr>address = ''alice'', balance = 102, nonce = 0, ots_consumed = {0, 1}\<rparr>,
                  ''bob'' \<mapsto> \<lparr>address = ''bob'', balance = 2, nonce = 0, ots_consumed = {}\<rparr>],
     chain_height = Some 1, fork_state_db = None, tx_metadata = Map.empty, journal = []\<rparr>"

definition ex_chain :: chain where
  "ex_chain = \<lparr>state = ex_store, txPool = [], lastBlock = Some ex_B1, currentDifficulty = 10,
                triggerMiner = False\<rparr>"

text \<open>The chain just after genesis: the tip is \<open>G\<close>, at height 0.\<close>

definition ex_chain_G :: chain where
  "ex_chain_G = \<lparr>state = ex_store\<lparr>blocks := [''G'' \<mapsto> ex_G],
                                    number_mapping := [0 \<mapsto> ex_mapping ex_G],
                                    chain_height := Some 0\<rparr>,
                  txPool = [], lastBlock = Some ex_G, currentDifficulty = 10, triggerMiner = False\<rparr>"

text \<open>
  The fork state \<^verbatim>\<open>addBlock\<close> creates for the initiator \<open>B2x\<close>, and the chain at the
  moment \<^verbatim>\<open>addBlock\<close> calls \<^verbatim>\<open>forkRecovery\<close>: block and fork state are committed.
\<close>

definition ex_fork_state :: fork_state where
  "ex_fork_state = \<lparr>initiator_headerhash = ''B2x'', fork_point_headerhash = [],
                     old_mainchain_hash_path = [], new_mainchain_hash_path = []\<rparr>"

definition ex_chain_fork :: chain where
  "ex_chain_fork = ex_chain\<lparr>state := commit [W_PutBlock ex_B2x, W_PutForkState ex_fork_state] ex_store\<rparr>"

section \<open>Commits and interruptions\<close>

text \<open>
  The store after a sequence of commits; the store an interruption after the first \<open>k\<close>
  commits leaves behind is \<open>replay (take k js) s\<close>. \<open>immediate_writes\<close> are the commits
  of a sequence of writes made without a batch: one commit per write that does not fail.
\<close>

definition replay :: "batch list \<Rightarrow> store \<Rightarrow> store" where
  "replay js s = fold commit js s"

definition immediate_writes :: "env \<Rightarrow> write_op list \<Rightarrow> batch list" where
  "immediate_writes e ws = map (\<lambda>w. [w]) (filter (\<lambda>w. \<not> write_fails e w) ws)"

fun sets_chain_height :: "write_op \<Rightarrow> bool" where
  "sets_chain_height (W_PutChainHeight h) = True"
| "sets_chain_height _ = False"

section \<open>Fork-point discovery as the specification words it\<close>

text \<open>
  A block is canonical when the main-chain block of its height has its header hash.
  \<open>spec_fork_walk s b path forkPoint\<close>: walking parent links from \<open>b\<close> and collecting
  the header hash of each visited block that is not canonical, the first canonical
  block has the hash \<open>forkPoint\<close>; the path does not hold the fork point.
  \<open>spec_fork_fail s b err\<close>: the walk reaches, before any canonical block, a block of
  height 0 or a block whose parent is not stored.
\<close>

definition canonical :: "store \<Rightarrow> block \<Rightarrow> bool" where
  "canonical s b =
     (case GetBlockByNumber s (block_number b) of
        None \<Rightarrow> False
      | Some mainchainBlock \<Rightarrow> header_hash mainchainBlock = header_hash b)"

inductive spec_fork_walk :: "store \<Rightarrow> block \<Rightarrow> bytes list \<Rightarrow> bytes \<Rightarrow> bool" where
  found: "canonical s b \<Longrightarrow> spec_fork_walk s b [] (header_hash b)"
| parent: "\<not> canonical s b \<Longrightarrow> block_number b \<noteq> 0 \<Longrightarrow> GetBlock s (prev_header_hash b) = Some p \<Longrightarrow>
     spec_fork_walk s p path forkPoint \<Longrightarrow> spec_fork_walk s b (header_hash b # path) forkPoint"

inductive spec_fork_fail :: "store \<Rightarrow> block \<Rightarrow> error \<Rightarrow> bool" where
  genesis: "\<not> canonical s b \<Longrightarrow> block_number b = 0 \<Longrightarrow> spec_fork_fail s b AlternateGenesisDiffers"
| missing: "\<not> canonical s b \<Longrightarrow> block_number b \<noteq> 0 \<Longrightarrow> GetBlock s (prev_header_hash b) = None \<Longrightarrow>
     spec_fork_fail s b KeyNotFound"
| parent: "\<not> canonical s b \<Longrightarrow> block_number b \<noteq> 0 \<Longrightarrow> GetBlock s (prev_header_hash b) = Some p \<Longrightarrow>
     spec_fork_fail s p err \<Longrightarrow> spec_fork_fail s b err"

text \<open>Heights fall along the parent link of \<open>x\<close>, when the parent is stored.\<close>

definition parent_lower :: "store \<Rightarrow> block \<Rightarrow> bool" where
  "parent_lower s x =
     (case GetBlock s (prev_header_hash x) of
        None \<Rightarrow> True
      | Some p \<Rightarrow> block_number x = 0 \<or> block_number p < block_number x)"

section \<open>Cumulative difficulty as the specification defines it\<close>

text \<open>
  The cumulative difficulty of a block is the sum of the block difficulties from genesis
  to the block: the stored metadata of \<open>b\<close> has a positive block difficulty, and, where
  the metadata of the parent is stored, a cumulative difficulty that is the parent's
  plus the block difficulty of \<open>b\<close>.
\<close>

definition cumulative_difficulty_ok :: "store \<Rightarrow> block \<Rightarrow> bool" where
  "cumulative_difficulty_ok s b =
     (case GetBlockMetadata s (header_hash b) of
        None \<Rightarrow> False
      | Some m \<Rightarrow>
          0 < unat (block_difficulty m)
          \<and> (case GetBlockMetadata s (prev_header_hash b) of
                None \<Rightarrow> True
              | Some pm \<Rightarrow>
                  unat (total_difficulty m) = unat (total_difficulty pm) + unat (block_difficulty m)))"

section \<open>Applying a branch as the specification words it\<close>

text \<open>
  The hashes left after skipping the prefix up to and including the tip's hash.
\<close>

definition spec_remaining_path :: "bytes list \<Rightarrow> bytes \<Rightarrow> bytes list" where
  "spec_remaining_path hashPath tipHash =
     (if tipHash \<in> set hashPath then tl (dropWhile (\<lambda>h. h \<noteq> tipHash) hashPath) else hashPath)"

text \<open>
  The batch of one applied block: its address states, and the chain-state writes that
  did not fail (their errors are dropped by the code).
\<close>

definition block_batch :: "env \<Rightarrow> addresses_state \<Rightarrow> block \<Rightarrow> batch" where
  "block_batch e as b =
     W_PutAddressesState as #
     filter (\<lambda>w. \<not> write_fails e w)
       [W_PutBlockNumberMapping (block_number b)
          \<lparr>headerhash = header_hash b, prev_headerhash = prev_header_hash b\<rparr>,
        W_PutChainHeight (block_number b),
        W_UpdateTxMetadata b]"

text \<open>
  \<open>spec_add_chain e c hashes r c'\<close>: for each hash in turn the block is loaded, applied,
  made the tip, and its batch committed; the first block that does not apply ends the
  run with \<open>False\<close> and nothing more written; after the last block the fork state is
  deleted and the result is \<open>True\<close>.
\<close>

inductive spec_add_chain :: "env \<Rightarrow> chain \<Rightarrow> bytes list \<Rightarrow> bool \<Rightarrow> chain \<Rightarrow> bool" where
  finish: "spec_add_chain e c [] True (c\<lparr>state := commit [W_DeleteForkState] (state c)\<rparr>)"
| abort: "GetBlock (state c) h = Some b \<Longrightarrow>
     apply_state_changes e b (GetAddressesState (state c) (prepare_addresses_list e b)) = (ok, as) \<Longrightarrow>
     \<not> ok \<or> write_fails e (W_PutAddressesState as) \<Longrightarrow>
     spec_add_chain e c (h # hs) False c"
| step: "GetBlock (state c) h = Some b \<Longrightarrow>
     apply_state_changes e b (GetAddressesState (state c) (prepare_addresses_list e b)) = (True, as) \<Longrightarrow>
     \<not> write_fails e (W_PutAddressesState as) \<Longrightarrow>
     spec_add_chain e
       (c\<lparr>lastBlock := Some b, txPool := txPool c @ [RemoveTxInBlock b],
          state := commit (block_batch e as b) (state c)\<rparr>) hs r c' \<Longrightarrow>
     spec_add_chain e c (h # hs) r c'"

section \<open>Properties\<close>

lemmas ex_defs = ex_coinbase_def ex_transfer_def ex_G_def ex_B1_def ex_B1x_def ex_B2x_def
  ex_B2_def ex_Bbad_def ex_credit_def ex_debit_def ex_tx_apply_def ex_tx_revert_def ex_env_def
  ex_empty_store_def ex_meta_def ex_mapping_def ex_store_def ex_chain_def ex_chain_G_def
  ex_fork_state_def ex_chain_fork_def

subsection \<open>The height window of AddBlock\<close>

text \<open>
  The check is a comparison of 64-bit words: the difference is taken modulo \<open>2 ^ 64\<close>.
  It agrees with the difference over the integers once the tip is at least
  \<open>reorg_limit\<close> high.
\<close>

lemma beyond_reorg_limit_wraps:
  "beyond_reorg_limit e h b \<longleftrightarrow> uint (block_number b) < (uint h - uint (reorg_limit e)) mod 2 ^ 64"
  by (simp add: beyond_reorg_limit_def word_less_def uint_word_ariths)

lemma beyond_reorg_limit_no_wrap:
  "reorg_limit e \<le> h \<Longrightarrow>
     beyond_reorg_limit e h b \<longleftrightarrow> uint (block_number b) < uint h - uint (reorg_limit e)"
  by (simp add: beyond_reorg_limit_def word_less_def word_le_def uint_sub_if')

text \<open>
  C4. The claim reads the height window over the integers, so that no block is rejected
  while the tip is not higher than \<open>reorg_limit\<close>. The code subtracts \<^verbatim>\<open>uint64\<close>
  values: with the tip at height 0 and a reorg limit of 22000, the block of height 1 is
  beyond the window (although \<open>1 < 0 - 22000\<close> is false over the integers), and
  \<^verbatim>\<open>AddBlock\<close> rejects it, leaving the chain as it was.
\<close>

theorem AddBlock_height_window_below_reorg_limit:
  "beyond_reorg_limit (ex_env\<lparr>reorg_limit := 22000\<rparr>) 0 ex_B1
   \<and> \<not> uint (block_number ex_B1) < uint (0 :: uint64) - uint (22000 :: uint64)
   \<and> Height ex_chain_G = Inr 0
   \<and> AddBlock (ex_env\<lparr>reorg_limit := 22000\<rparr>) ex_chain_G ex_B1 = Some (Inr (False, ex_chain_G))"
  by (simp add: AddBlock_def Height_def ex_chain_G_def beyond_reorg_limit_def ex_env_def
      ex_B1_def ex_G_def word_less_def)

text \<open>Without the window (a reorg limit of 0) the same block is accepted and becomes the tip.\<close>

lemma AddBlock_accepts_without_window:
  "\<exists>c. AddBlock (ex_env\<lparr>reorg_limit := 0\<rparr>) ex_chain_G ex_B1 = Some (Inr (True, c))
       \<and> lastBlock c = Some ex_B1"
  by (simp add: AddBlock_def addBlock_def Height_def beyond_reorg_limit_def word_less_def
      GetBlock_def GetBlockMetadata_def applyBlock_def store_put_def GetAddressesState_def
      updateChainState_def updateBlockNumberMapping_def Let_def WriteBatch_def ex_defs)

subsection \<open>A block that extends the tip and does not apply\<close>

text \<open>
  C7. If the submitted block extends the tip and \<^verbatim>\<open>applyBlock\<close> fails (the block's
  \<^verbatim>\<open>ApplyStateChanges\<close> returns false, or writing the changed address states fails),
  then \<^verbatim>\<open>AddBlock\<close> returns false and the chain is exactly as before: store (with its
  journal of commits), tip, pool and miner flag.
\<close>

theorem AddBlock_apply_failure_persists_nothing:
  assumes "lastBlock c = Some tip"
    and "prev_header_hash b = header_hash tip"
    and "\<not> fst (apply_state_changes e b (GetAddressesState (state c) (prepare_addresses_list e b)))
         \<or> write_fails e (W_PutAddressesState
               (snd (apply_state_changes e b (GetAddressesState (state c) (prepare_addresses_list e b)))))"
  shows "fst (applyBlock e (state c) b (Some [])) = False \<and> AddBlock e c b = Some (Inr (False, c))"
  using assms
  by (auto simp add: AddBlock_def addBlock_def applyBlock_def store_put_def Height_def Let_def
      split: prod.splits bool.splits option.splits)

theorem AddBlock_apply_failure_persists_nothing_witness:
  "lastBlock ex_chain = Some ex_B1 \<and> prev_header_hash ex_Bbad = header_hash ex_B1
   \<and> \<not> fst (apply_state_changes ex_env ex_Bbad
              (GetAddressesState (state ex_chain) (prepare_addresses_list ex_env ex_Bbad)))
   \<and> \<not> beyond_reorg_limit ex_env 1 ex_Bbad
   \<and> AddBlock ex_env ex_chain ex_Bbad = Some (Inr (False, ex_chain))"
proof -
  have tip: "lastBlock ex_chain = Some ex_B1"
    by (simp add: ex_chain_def)
  have ext: "prev_header_hash ex_Bbad = header_hash ex_B1"
    by (simp add: ex_Bbad_def ex_B1_def)
  have fail: "\<not> fst (apply_state_changes ex_env ex_Bbad
              (GetAddressesState (state ex_chain) (prepare_addresses_list ex_env ex_Bbad)))"
    by (simp add: ex_env_def ex_Bbad_def)
  have win: "\<not> beyond_reorg_limit ex_env 1 ex_Bbad"
    by (simp add: beyond_reorg_limit_def ex_env_def ex_Bbad_def)
  from AddBlock_apply_failure_persists_nothing [OF tip ext disjI1 [OF fail]] tip ext fail win
  show ?thesis by simp
qed

subsection \<open>Cold start\<close>

lemma Load_cold_start_result:
  assumes "chain_height (state c) = None"
    and "genesis_transactions e = coinBase # transfers"
    and "validate_extended_coinbase e coinBase (genesis_block_number e)"
  shows "\<exists>s'. Load e c g = Some (Inr (None, c\<lparr>state := s'\<rparr>))"
  using assms
  by (auto simp add: Load_def Let_def split: prod.splits)

text \<open>
  C10. A cold start (no chain height in the store) on a fresh chain succeeds when the
  genesis coinbase validates, and leaves the tip pointer nil: \<^verbatim>\<open>Height\<close> and
  \<^verbatim>\<open>AddBlock\<close> then dereference nil, for every block submitted.
\<close>

theorem Load_cold_start_leaves_tip_nil:
  assumes "chain_height s = None"
    and "genesis_transactions e = coinBase # transfers"
    and "validate_extended_coinbase e coinBase (genesis_block_number e)"
  shows "\<exists>c. Load e (CreateChain s) g = Some (Inr (None, c))
           \<and> lastBlock c = None
           \<and> Height c = Inl NilDereference
           \<and> AddBlock e c b = Some (Inl NilDereference)"
proof -
  from assms have "chain_height (state (CreateChain s)) = None"
    by (simp add: CreateChain_def)
  with assms obtain s' where
    "Load e (CreateChain s) g = Some (Inr (None, (CreateChain s)\<lparr>state := s'\<rparr>))"
    using Load_cold_start_result by blast
  then show ?thesis
    by (simp add: CreateChain_def Height_def AddBlock_def)
qed

theorem Load_cold_start_leaves_tip_nil_witness:
  "chain_height ex_empty_store = None
   \<and> (\<exists>c. Load ex_env (CreateChain ex_empty_store) ex_G = Some (Inr (None, c))
           \<and> lastBlock c = None
           \<and> Height c = Inl NilDereference
           \<and> AddBlock ex_env c ex_B1 = Some (Inl NilDereference))"
proof -
  have cold: "chain_height ex_empty_store = None"
    by (simp add: ex_empty_store_def)
  have txs: "genesis_transactions ex_env =
      ex_coinbase ''g0'' ''alice'' # [ex_transfer ''g1'' ''alice'' 0 ''bob'']"
    by (simp add: ex_env_def ex_G_def)
  have ok: "validate_extended_coinbase ex_env (ex_coinbase ''g0'' ''alice'') (genesis_block_number ex_env)"
    by (simp add: ex_env_def)
  from Load_cold_start_leaves_tip_nil [OF cold txs ok, of ex_G ex_B1] cold
  show ?thesis by simp
qed

text \<open>Only the warm start assigns the tip: it is the canonical block at the stored height.\<close>

lemma Load_warm_start_sets_tip:
  assumes "chain_height (state c) = Some h" and "Load e c g = Some (Inr (None, c'))"
    and "fork_state_db (state c) = None"
  shows "lastBlock c' = GetBlockByNumber (state c) h \<and> lastBlock c' \<noteq> None"
  using assms
  by (auto simp add: Load_def Let_def split: option.splits)

subsection \<open>Rollback\<close>

text \<open>
  The loop breaks when the canonical block at the tip's height has the tip's header hash.
  A tip on the main chain is therefore never removed.
\<close>

lemma Rollback_stops_at_canonical_tip:
  assumes "lastBlock c = Some tip"
    and "GetBlock (state c) (header_hash tip) = Some b"
    and "GetBlockByNumber (state c) (block_number b) = Some mainchainBlock"
    and "header_hash mainchainBlock = header_hash b"
  shows "Rollback e c forkedHeaderHash forkState = Some (Inr ([], c, forkState))"
  using assms by (simp add: Rollback_def Rollback_loop.simps)

text \<open>
  C1. The claim has \<^verbatim>\<open>Rollback\<close> remove tip blocks until the tip is the fork point,
  stopping early only when the block-number mapping at the tip's height names another
  block. On the chain \<open>G, B1\<close> with the canonical tip \<open>B1\<close>, rolling back to \<open>G\<close> removes
  nothing: the hash path is empty and the chain (and a supplied fork state) is unchanged.
\<close>

theorem Rollback_keeps_canonical_tip:
  "lastBlock ex_chain = Some ex_B1
   \<and> header_hash ex_B1 \<noteq> ''G''
   \<and> map_option headerhash (number_mapping (state ex_chain) (block_number ex_B1)) = Some (header_hash ex_B1)
   \<and> Rollback ex_env ex_chain ''G'' None = Some (Inr ([], ex_chain, None))
   \<and> Rollback ex_env ex_chain ''G'' (Some ex_fork_state) = Some (Inr ([], ex_chain, Some ex_fork_state))"
  by (simp add: Rollback_def Rollback_loop.simps GetBlock_def GetBlockByNumber_def ex_defs)

text \<open>
  A tip that is not the canonical block of its height is removed, together with the
  mapping entry of that height, which names the other block.
\<close>

lemma Rollback_removes_side_tip:
  "\<exists>c. Rollback ex_env (ex_chain\<lparr>lastBlock := Some ex_B1x\<rparr>) ''G'' None = Some (Inr ([''B1x''], c, None))
     \<and> lastBlock c = Some ex_G \<and> number_mapping (state c) 1 = None"
  by (simp add: Rollback_def Rollback_loop.simps GetBlock_def GetBlockByNumber_def
      RemoveBlockFromMainchain_def GetAddressesState_def store_put_def commit_def WriteBatch_def
      Let_def ex_defs)

subsection \<open>Reverting a block's transactions\<close>

text \<open>
  The loop starts at the last index and runs while \<open>i \<le> 0\<close>: with two or more
  transactions its body never runs; with fewer it panics.
\<close>

lemma revert_loop_two_or_more:
  "2 \<le> length txs \<Longrightarrow> revert_loop e txs (int (length txs) - 1) as = Inr as"
  by simp

lemma revert_loop_fewer:
  "length txs < 2 \<Longrightarrow> \<exists>f. revert_loop e txs (int (length txs) - 1) as = Inl f"
proof (cases txs)
  case Nil
  then show ?thesis by simp
next
  case (Cons tx rest)
  assume "length txs < 2"
  with Cons have "rest = []" by simp
  with Cons show ?thesis
    by (simp add: Let_def split: sum.splits)
qed

text \<open>
  C3. The claim has every transaction of the removed block reverted, last to first. For
  \<open>B1\<close> (a coinbase and a transfer to bob) \<^verbatim>\<open>RemoveBlockFromMainchain\<close> writes the
  address states as they were loaded: bob keeps the coin of the transfer (reverting the
  transfer would change his state), and alice's one-time-signature indices stay consumed.
\<close>

theorem RemoveBlockFromMainchain_reverts_nothing:
  "length (transactions ex_B1) = 2
   \<and> (\<exists>c as. RemoveBlockFromMainchain ex_env ex_chain ex_B1 1 (Some []) =
          Inr (c, Some [W_PutChainHeight 0, W_RollbackTxMetadata ex_B1, W_PutAddressesState as])
        \<and> as ''bob'' = addresses ex_store ''bob''
        \<and> as ''alice'' = addresses ex_store ''alice''
        \<and> tx_revert_state_changes ex_env (transactions ex_B1 ! 1) as ''bob'' \<noteq> as ''bob'')"
  by (simp add: RemoveBlockFromMainchain_def GetAddressesState_def store_put_def Let_def ex_defs)

subsection \<open>Fork recovery from the fresh state\<close>

text \<open>
  In the fresh state the discovered fork point and path go into the fork state, and the
  rest of the function runs with an empty fork hash and an empty path.
\<close>

lemma forkRecovery_fresh:
  assumes "fork_point_headerhash forkState = []"
    and "GetForkPoint (state c) (Some b) = Some (Inr (Inr (forkPoint, path)))"
    and "\<not> write_fails e (W_PutForkState
            (forkState\<lparr>fork_point_headerhash := forkPoint, new_mainchain_hash_path := path\<rparr>))"
  shows "forkRecovery e c b forkState =
     forkRecovery_rest e
       (c\<lparr>state := commit [W_PutForkState
            (forkState\<lparr>fork_point_headerhash := forkPoint, new_mainchain_hash_path := path\<rparr>)] (state c)\<rparr>)
       (forkState\<lparr>fork_point_headerhash := forkPoint, new_mainchain_hash_path := path\<rparr>) [] []"
  using assms by (simp add: forkRecovery_def store_put_def Let_def)

text \<open>
  C2. The claim has the fresh state roll back to the discovered fork point and apply the
  discovered path. With tip \<open>B1\<close> and the heavier branch \<open>G, B1x, B2x\<close>,
  \<^verbatim>\<open>GetForkPoint\<close> finds the fork point \<open>G\<close> and the path \<open>B2x, B1x\<close>, and both are
  persisted; then nothing is rolled back and nothing applied: \<^verbatim>\<open>forkRecovery\<close> returns
  true with the tip still \<open>B1\<close> at height 1, and the fork state deleted.
\<close>

theorem forkRecovery_fresh_ignores_fork_point:
  "GetForkPoint (state ex_chain_fork) (Some ex_B2x) = Some (Inr (Inr (''G'', [''B2x'', ''B1x''])))
   \<and> (\<exists>c. forkRecovery ex_env ex_chain_fork ex_B2x ex_fork_state = Some (Inr (True, c))
        \<and> lastBlock c = Some ex_B1
        \<and> chain_height (state c) = Some 1
        \<and> map_option headerhash (number_mapping (state c) 1) = Some ''B1''
        \<and> fork_state_db (state c) = None
        \<and> journal (state c) =
            [[W_PutBlock ex_B2x, W_PutForkState ex_fork_state],
             [W_PutForkState (ex_fork_state\<lparr>fork_point_headerhash := ''G'',
                                             new_mainchain_hash_path := [''B2x'', ''B1x'']\<rparr>)],
             [W_DeleteForkState]])"
  by (simp add: forkRecovery_def forkRecovery_rest_def GetForkPoint_def GetForkPoint_loop.simps
      Rollback_def Rollback_loop.simps AddChain_def
      GetBlock_def GetBlockByNumber_def store_put_def commit_def Let_def ex_defs)

subsection \<open>Cold start and interruptions\<close>

lemma journal_commit: "journal (commit ws s) = journal s @ [ws]"
  by (simp add: commit_def)

lemma replay_append: "replay (a @ b) s = replay b (replay a s)"
  by (simp add: replay_def)

lemma journal_replay: "journal (replay js s) = journal s @ js"
  by (induction js arbitrary: s) (simp_all add: replay_def journal_commit)

lemma store_put_immediate:
  "snd (store_put e w None s) = (replay (immediate_writes e [w]) s, None)"
  by (simp add: store_put_def replay_def immediate_writes_def)

lemma immediate_writes_append:
  "immediate_writes e (a @ b) = immediate_writes e a @ immediate_writes e b"
  by (simp add: immediate_writes_def)

lemma immediate_writes_Cons:
  "immediate_writes e (w # ws) = immediate_writes e [w] @ immediate_writes e ws"
  by (simp add: immediate_writes_def)

lemma chain_height_apply_write:
  "\<not> sets_chain_height w \<Longrightarrow> chain_height (apply_write w s) = chain_height s"
  by (cases w) simp_all

lemma chain_height_fold_apply_write:
  "\<forall>w \<in> set ws. \<not> sets_chain_height w \<Longrightarrow> chain_height (fold apply_write ws s) = chain_height s"
  by (induction ws arbitrary: s) (simp_all add: chain_height_apply_write)

lemma chain_height_commit:
  "\<forall>w \<in> set ws. \<not> sets_chain_height w \<Longrightarrow> chain_height (commit ws s) = chain_height s"
  by (simp add: commit_def chain_height_fold_apply_write)

lemma chain_height_replay:
  "\<forall>ws \<in> set js. \<forall>w \<in> set ws. \<not> sets_chain_height w \<Longrightarrow> chain_height (replay js s) = chain_height s"
  by (induction js arbitrary: s) (simp_all add: replay_def chain_height_commit)

lemma immediate_writes_no_height:
  "\<forall>w \<in> set ws. \<not> sets_chain_height w \<Longrightarrow>
     \<forall>b \<in> set (immediate_writes e ws). \<forall>w \<in> set b. \<not> sets_chain_height w"
  by (auto simp add: immediate_writes_def)

lemma Load_cold_start_state:
  assumes "chain_height (state c) = None" and "Load e c g = Some (Inr (None, c'))"
  shows "\<exists>as coinBase transfers. genesis_transactions e = coinBase # transfers
           \<and> as = fold (tx_apply_state_changes e) transfers (tx_apply_state_changes e coinBase
                  ((genesis_addresses e)(addr_to coinBase \<mapsto> GetDefaultAddressState (addr_to coinBase))))
           \<and> state c' = replay (immediate_writes e
            [W_PutBlock g,
             W_PutBlockNumberMapping (block_number g)
               \<lparr>headerhash = header_hash g, prev_headerhash = prev_header_hash g\<rparr>,
             W_PutBlockMetaData (header_hash g)
               \<lparr>block_difficulty = difficulty_get e (mining_setpoint_blocktime e) (genesis_difficulty e),
                total_difficulty = difficulty_get e (mining_setpoint_blocktime e) (genesis_difficulty e),
                child_header_hashes = []\<rparr>,
             W_PutAddressesState as, W_UpdateTxMetadata g, W_PutChainHeight 0]) (state c)"
proof -
  have unfold6: "immediate_writes e [a, b, c, d, f, h] =
      immediate_writes e [a] @ immediate_writes e [b] @ immediate_writes e [c] @ immediate_writes e [d]
        @ immediate_writes e [f] @ immediate_writes e [h]" for a b c d f h
    by (simp add: immediate_writes_def)
  from assms show ?thesis
    unfolding Load_def
    by (auto simp add: Let_def store_put_immediate unfold6 replay_append
        split: list.splits if_splits)
qed


text \<open>
  C8, as the code has it. A successful cold start makes six immediate writes, each a
  commit of its own and in this order: the genesis block, its number mapping, its
  metadata, the genesis address states, the transaction-metadata indices and the chain
  height 0 (a write that fails is skipped). The store after \<^verbatim>\<open>Load\<close> is the store
  after these commits, and an interruption before the last of them leaves a store
  without chain height, on which the next \<^verbatim>\<open>Load\<close> starts cold again.
\<close>

theorem Load_cold_start_writes_unbatched:
  assumes "chain_height (state c) = None" and "Load e c g = Some (Inr (None, c'))"
  shows "\<exists>as coinBase transfers js.
         genesis_transactions e = coinBase # transfers
         \<and> as = fold (tx_apply_state_changes e) transfers (tx_apply_state_changes e coinBase
                  ((genesis_addresses e)(addr_to coinBase \<mapsto> GetDefaultAddressState (addr_to coinBase))))
         \<and> js = immediate_writes e
            [W_PutBlock g,
             W_PutBlockNumberMapping (block_number g)
               \<lparr>headerhash = header_hash g, prev_headerhash = prev_header_hash g\<rparr>,
             W_PutBlockMetaData (header_hash g)
               \<lparr>block_difficulty = difficulty_get e (mining_setpoint_blocktime e) (genesis_difficulty e),
                total_difficulty = difficulty_get e (mining_setpoint_blocktime e) (genesis_difficulty e),
                child_header_hashes = []\<rparr>,
             W_PutAddressesState as, W_UpdateTxMetadata g, W_PutChainHeight 0]
         \<and> state c' = replay js (state c)
         \<and> journal (state c') = journal (state c) @ js
         \<and> (\<forall>k < length js. chain_height (replay (take k js) (state c)) = None)"
proof -
  from Load_cold_start_state [OF assms] obtain as coinBase transfers w1 w2 w3 where
    gen: "genesis_transactions e = coinBase # transfers"
       "as = fold (tx_apply_state_changes e) transfers (tx_apply_state_changes e coinBase
              ((genesis_addresses e)(addr_to coinBase \<mapsto> GetDefaultAddressState (addr_to coinBase))))"
    and w: "w1 = W_PutBlock g"
       "w2 = W_PutBlockNumberMapping (block_number g)
               \<lparr>headerhash = header_hash g, prev_headerhash = prev_header_hash g\<rparr>"
       "w3 = W_PutBlockMetaData (header_hash g)
               \<lparr>block_difficulty = difficulty_get e (mining_setpoint_blocktime e) (genesis_difficulty e),
                total_difficulty = difficulty_get e (mining_setpoint_blocktime e) (genesis_difficulty e),
                child_header_hashes = []\<rparr>"
    and st: "state c' = replay (immediate_writes e
               [w1, w2, w3, W_PutAddressesState as, W_UpdateTxMetadata g, W_PutChainHeight 0]) (state c)"
    by auto
  let ?front = "[w1, w2, w3, W_PutAddressesState as, W_UpdateTxMetadata g]"
  let ?js = "immediate_writes e (?front @ [W_PutChainHeight 0])"
  have split: "?js = immediate_writes e ?front @ immediate_writes e [W_PutChainHeight 0]"
    by (rule immediate_writes_append)
  have front: "\<forall>b \<in> set (immediate_writes e ?front). \<forall>w \<in> set b. \<not> sets_chain_height w"
    by (rule immediate_writes_no_height) (simp add: w)
  have prefix: "chain_height (replay (take k ?js) (state c)) = None" if "k < length ?js" for k
  proof -
    have "length (immediate_writes e [W_PutChainHeight 0]) \<le> 1"
      by (simp add: immediate_writes_def)
    with that split have "take k ?js = take k (immediate_writes e ?front)"
      by (cases "immediate_writes e [W_PutChainHeight 0]") auto
    moreover have "\<forall>b \<in> set (take k (immediate_writes e ?front)). \<forall>w \<in> set b. \<not> sets_chain_height w"
      using front by (meson in_set_takeD)
    ultimately show ?thesis
      using assms(1) by (simp add: chain_height_replay)
  qed
  from st have st': "state c' = replay ?js (state c)"
    by simp
  then have jn: "journal (state c') = journal (state c) @ ?js"
    by (simp add: journal_replay)
  from prefix have pre: "\<forall>k < length ?js. chain_height (replay (take k ?js) (state c)) = None"
    by blast
  show ?thesis
  proof (intro exI conjI)
    show "genesis_transactions e = coinBase # transfers"
      by (rule gen(1))
    show "as = fold (tx_apply_state_changes e) transfers (tx_apply_state_changes e coinBase
              ((genesis_addresses e)(addr_to coinBase \<mapsto> GetDefaultAddressState (addr_to coinBase))))"
      by (rule gen(2))
    show "?js = immediate_writes e
            [W_PutBlock g,
             W_PutBlockNumberMapping (block_number g)
               \<lparr>headerhash = header_hash g, prev_headerhash = prev_header_hash g\<rparr>,
             W_PutBlockMetaData (header_hash g)
               \<lparr>block_difficulty = difficulty_get e (mining_setpoint_blocktime e) (genesis_difficulty e),
                total_difficulty = difficulty_get e (mining_setpoint_blocktime e) (genesis_difficulty e),
                child_header_hashes = []\<rparr>,
             W_PutAddressesState as, W_UpdateTxMetadata g, W_PutChainHeight 0]"
      by (simp add: w)
    show "state c' = replay ?js (state c)"
      by (rule st')
    show "journal (state c') = journal (state c) @ ?js"
      by (rule jn)
    show "\<forall>k < length ?js. chain_height (replay (take k ?js) (state c)) = None"
      by (rule pre)
  qed
qed

theorem Load_cold_start_writes_unbatched_witness:
  "chain_height (state (CreateChain ex_empty_store)) = None
   \<and> (\<exists>c'. Load ex_env (CreateChain ex_empty_store) ex_G = Some (Inr (None, c'))
         \<and> length (journal (state c')) = 6
         \<and> (\<forall>k < 6. chain_height (replay (take k (journal (state c'))) ex_empty_store) = None))"
proof -
  have cold: "chain_height (state (CreateChain ex_empty_store)) = None"
    by (simp add: CreateChain_def ex_empty_store_def)
  have txs: "genesis_transactions ex_env =
      ex_coinbase ''g0'' ''alice'' # [ex_transfer ''g1'' ''alice'' 0 ''bob'']"
    by (simp add: ex_env_def ex_G_def)
  have ok: "validate_extended_coinbase ex_env (ex_coinbase ''g0'' ''alice'') (genesis_block_number ex_env)"
    by (simp add: ex_env_def)
  from Load_cold_start_result [OF cold txs ok, of ex_G] obtain c' where
    load: "Load ex_env (CreateChain ex_empty_store) ex_G = Some (Inr (None, c'))"
    by blast
  have nofail: "immediate_writes ex_env ws = map (\<lambda>w. [w]) ws" for ws
    by (simp add: immediate_writes_def ex_env_def)
  from Load_cold_start_writes_unbatched [OF cold load] obtain ws js where
    js: "js = immediate_writes ex_env ws" and ws: "length ws = 6"
    and jn: "journal (state c') = journal (state (CreateChain ex_empty_store)) @ js"
    and pre: "\<forall>k < length js. chain_height (replay (take k js) (state (CreateChain ex_empty_store))) = None"
    by (elim exE conjE) (rule that, assumption, simp, assumption, assumption)
  from js ws have len: "length js = 6"
    by (simp add: nofail)
  from jn len have "length (journal (state c')) = 6"
    by (simp add: CreateChain_def ex_empty_store_def)
  moreover from jn have "journal (state c') = js"
    by (simp add: CreateChain_def ex_empty_store_def)
  moreover note pre len cold load
  ultimately show ?thesis
    by (simp add: CreateChain_def)
qed

text \<open>
  C8, as claimed: the address states, the transaction-metadata indices and the chain
  height would land in one atomic batch, so that no interruption leaves a part of them.
  The cold start of the example makes six commits of one write each, and an interruption
  after the fourth leaves the genesis address states written (bob has his coin) with
  neither the transaction-metadata index of the transfer nor the chain height.
\<close>

theorem Load_cold_start_partial_genesis:
  "(case Load ex_env (CreateChain ex_empty_store) ex_G of
      Some (Inr (None, c)) \<Rightarrow>
        length (journal (state c)) = 6
        \<and> list_all (\<lambda>ws. length ws = 1) (journal (state c))
        \<and> map_option balance (addresses (replay (take 4 (journal (state c))) ex_empty_store) ''bob'') = Some 1
        \<and> chain_height (replay (take 4 (journal (state c))) ex_empty_store) = None
        \<and> tx_metadata (replay (take 4 (journal (state c))) ex_empty_store) ''g1'' = None
        \<and> tx_metadata (state c) ''g1'' = Some 0
    | _ \<Rightarrow> False)"
  by (simp add: Load_def CreateChain_def store_put_def commit_def replay_def genesis_addresses_def
      GetDefaultAddressState_def Let_def ex_defs)

subsection \<open>Blocks that are not heavier than the tip\<close>

lemma addBlock_not_heavier_side:
  assumes "lastBlock c = Some tip"
    and "\<forall>limit. block_size_limit e (state c) b = Some limit \<longrightarrow> block_size b \<le> limit"
    and "GetBlockMetadata (state c) (header_hash tip) = Some lastBlockMetadata"
    and "GetBlockMetadata (state c) (header_hash b) = Some newBlockMetadata"
    and "unat (total_difficulty newBlockMetadata) \<le> unat (total_difficulty lastBlockMetadata)"
    and "prev_header_hash b \<noteq> header_hash tip"
    and "\<not> write_fails e (W_PutBlock b)"
  shows "addBlock e c b (Some []) = Some (Inr ((True, False), c, Some [W_PutBlock b]))"
  using assms
  by (auto simp add: addBlock_def store_put_def Let_def split: option.splits)

text \<open>A side block that is not heavier than the tip: one batch, holding the block body only.\<close>

lemma AddBlock_side_block_not_heavier:
  assumes "lastBlock c = Some tip"
    and "\<not> beyond_reorg_limit e (block_number tip) b"
    and "GetBlock (state c) (header_hash b) = None"
    and "\<forall>limit. block_size_limit e (state c) b = Some limit \<longrightarrow> block_size b \<le> limit"
    and "GetBlockMetadata (state c) (header_hash tip) = Some lastBlockMetadata"
    and "GetBlockMetadata (state c) (header_hash b) = Some newBlockMetadata"
    and "unat (total_difficulty newBlockMetadata) \<le> unat (total_difficulty lastBlockMetadata)"
    and "prev_header_hash b \<noteq> header_hash tip"
    and "\<not> write_fails e (W_PutBlock b)"
  shows "AddBlock e c b = Some (Inr (True, c\<lparr>state := commit [W_PutBlock b] (state c)\<rparr>))"
  using assms addBlock_not_heavier_side [of c tip e b lastBlockMetadata newBlockMetadata]
  by (simp add: AddBlock_def Height_def WriteBatch_def)

text \<open>
  With the cumulative difficulty of the specification, a child of the tip is heavier
  than the tip: a block that is not heavier does not extend the tip.
\<close>

lemma not_heavier_is_side_block:
  assumes "cumulative_difficulty_ok s b"
    and "GetBlockMetadata s (header_hash tip) = Some lastBlockMetadata"
    and "GetBlockMetadata s (header_hash b) = Some newBlockMetadata"
    and "unat (total_difficulty newBlockMetadata) \<le> unat (total_difficulty lastBlockMetadata)"
  shows "prev_header_hash b \<noteq> header_hash tip"
proof
  assume "prev_header_hash b = header_hash tip"
  with assms(1-3) have
    "0 < unat (block_difficulty newBlockMetadata)"
    "unat (total_difficulty newBlockMetadata) =
       unat (total_difficulty lastBlockMetadata) + unat (block_difficulty newBlockMetadata)"
    by (simp_all add: cumulative_difficulty_ok_def)
  with assms(4) show False
    by simp
qed

text \<open>
  C5. A block that is not stored yet, lies within the height window and the size limit,
  carries the cumulative difficulty of the specification, is not heavier than the tip,
  and whose body the store accepts: \<^verbatim>\<open>AddBlock\<close> returns true and commits one batch
  that holds the block body only. Tip, chain height, block-number mapping, address
  states and fork state are as before; with equal cumulative difficulty the earlier tip
  stays.
\<close>

theorem AddBlock_not_heavier_keeps_tip:
  assumes "lastBlock c = Some tip"
    and "\<not> beyond_reorg_limit e (block_number tip) b"
    and "GetBlock (state c) (header_hash b) = None"
    and "\<forall>limit. block_size_limit e (state c) b = Some limit \<longrightarrow> block_size b \<le> limit"
    and "GetBlockMetadata (state c) (header_hash tip) = Some lastBlockMetadata"
    and "GetBlockMetadata (state c) (header_hash b) = Some newBlockMetadata"
    and "unat (total_difficulty newBlockMetadata) \<le> unat (total_difficulty lastBlockMetadata)"
    and "cumulative_difficulty_ok (state c) b"
    and "\<not> write_fails e (W_PutBlock b)"
  shows "\<exists>c'. AddBlock e c b = Some (Inr (True, c'))
      \<and> c' = c\<lparr>state := commit [W_PutBlock b] (state c)\<rparr>
      \<and> blocks (state c') = (blocks (state c))(header_hash b \<mapsto> b)
      \<and> lastBlock c' = Some tip
      \<and> chain_height (state c') = chain_height (state c)
      \<and> number_mapping (state c') = number_mapping (state c)
      \<and> addresses (state c') = addresses (state c)
      \<and> fork_state_db (state c') = fork_state_db (state c)"
proof -
  from assms(8) assms(5-7) have side: "prev_header_hash b \<noteq> header_hash tip"
    by (rule not_heavier_is_side_block)
  from AddBlock_side_block_not_heavier [OF assms(1-7) side assms(9)] assms(1)
  show ?thesis
    by (simp add: commit_def)
qed

theorem AddBlock_not_heavier_keeps_tip_witness:
  "lastBlock ex_chain = Some ex_B1
   \<and> \<not> beyond_reorg_limit ex_env (block_number ex_B1) ex_B1x
   \<and> unat (total_difficulty (ex_meta 20)) \<le> unat (total_difficulty (ex_meta 20))
   \<and> cumulative_difficulty_ok
        (state (ex_chain\<lparr>state := ex_store\<lparr>blocks := [''G'' \<mapsto> ex_G, ''B1'' \<mapsto> ex_B1]\<rparr>\<rparr>)) ex_B1x
   \<and> (\<exists>c'. AddBlock ex_env (ex_chain\<lparr>state := ex_store\<lparr>blocks := [''G'' \<mapsto> ex_G, ''B1'' \<mapsto> ex_B1]\<rparr>\<rparr>) ex_B1x
              = Some (Inr (True, c'))
          \<and> blocks (state c') ''B1x'' = Some ex_B1x
          \<and> lastBlock c' = Some ex_B1
          \<and> chain_height (state c') = Some 1
          \<and> fork_state_db (state c') = None)"
proof -
  let ?c = "ex_chain\<lparr>state := ex_store\<lparr>blocks := [''G'' \<mapsto> ex_G, ''B1'' \<mapsto> ex_B1]\<rparr>\<rparr>"
  have tip: "lastBlock ?c = Some ex_B1"
    by (simp add: ex_chain_def)
  have window: "\<not> beyond_reorg_limit ex_env (block_number ex_B1) ex_B1x"
    by (simp add: beyond_reorg_limit_def ex_env_def ex_B1_def ex_B1x_def)
  have fresh: "GetBlock (state ?c) (header_hash ex_B1x) = None"
    by (simp add: GetBlock_def ex_store_def ex_B1x_def)
  have size: "\<forall>limit. block_size_limit ex_env (state ?c) ex_B1x = Some limit \<longrightarrow> block_size ex_B1x \<le> limit"
    by (simp add: ex_env_def ex_B1x_def)
  have m1: "GetBlockMetadata (state ?c) (header_hash ex_B1) = Some (ex_meta 20)"
    by (simp add: GetBlockMetadata_def ex_store_def ex_B1_def)
  have m2: "GetBlockMetadata (state ?c) (header_hash ex_B1x) = Some (ex_meta 20)"
    by (simp add: GetBlockMetadata_def ex_store_def ex_B1x_def)
  have light: "unat (total_difficulty (ex_meta 20)) \<le> unat (total_difficulty (ex_meta 20))"
    by simp
  have cum: "cumulative_difficulty_ok (state ?c) ex_B1x"
    by (simp add: cumulative_difficulty_ok_def GetBlockMetadata_def ex_store_def ex_B1x_def ex_meta_def)
  have put: "\<not> write_fails ex_env (W_PutBlock ex_B1x)"
    by (simp add: ex_env_def)
  from AddBlock_not_heavier_keeps_tip [OF tip window fresh size m1 m2 light cum put]
  obtain c' where "AddBlock ex_env ?c ex_B1x = Some (Inr (True, c'))"
    and "blocks (state c') = (blocks (state ?c))(header_hash ex_B1x \<mapsto> ex_B1x)"
    and "lastBlock c' = Some ex_B1" and "chain_height (state c') = chain_height (state ?c)"
    and "fork_state_db (state c') = fork_state_db (state ?c)"
    by blast
  with tip window light cum show ?thesis
    by (simp add: ex_chain_def ex_store_def ex_B1x_def)
qed

text \<open>
  A child of the tip, which the specification's cumulative difficulty makes heavier
  than the tip, becomes the tip, and its address states are committed with it.
\<close>

lemma AddBlock_tip_child_becomes_tip:
  "cumulative_difficulty_ok (state ex_chain) ex_B2
   \<and> \<not> beyond_reorg_limit ex_env (block_number ex_B1) ex_B2
   \<and> (\<exists>c. AddBlock ex_env ex_chain ex_B2 = Some (Inr (True, c))
        \<and> lastBlock c = Some ex_B2
        \<and> chain_height (state c) = Some 2
        \<and> map_option balance (addresses (state c) ''bob'') = Some 3)"
  by (simp add: cumulative_difficulty_ok_def AddBlock_def addBlock_def Height_def
      beyond_reorg_limit_def GetBlock_def GetBlockMetadata_def applyBlock_def store_put_def
      GetAddressesState_def GetDefaultAddressState_def updateChainState_def
      updateBlockNumberMapping_def Let_def WriteBatch_def commit_def ex_defs)

subsection \<open>Fork-point discovery\<close>

text \<open>One round of the loop, case by case.\<close>

lemma GetForkPoint_loop_canonical:
  "canonical s b \<Longrightarrow> GetForkPoint_loop s (Some b) acc = Some (Inr (Inr (header_hash b, acc)))"
  by (subst GetForkPoint_loop.simps) (simp add: canonical_def)

lemma GetForkPoint_loop_genesis:
  "\<not> canonical s b \<Longrightarrow> block_number b = 0 \<Longrightarrow>
     GetForkPoint_loop s (Some b) acc = Some (Inr (Inl AlternateGenesisDiffers))"
  by (subst GetForkPoint_loop.simps) (simp add: canonical_def)

lemma GetForkPoint_loop_missing:
  "\<not> canonical s b \<Longrightarrow> block_number b \<noteq> 0 \<Longrightarrow> GetBlock s (prev_header_hash b) = None \<Longrightarrow>
     GetForkPoint_loop s (Some b) acc = Some (Inr (Inl KeyNotFound))"
  by (subst GetForkPoint_loop.simps) (simp add: canonical_def)

lemma GetForkPoint_loop_parent:
  "\<not> canonical s b \<Longrightarrow> block_number b \<noteq> 0 \<Longrightarrow> GetBlock s (prev_header_hash b) = Some p \<Longrightarrow>
     GetForkPoint_loop s (Some b) acc = GetForkPoint_loop s (Some p) (acc @ [header_hash b])"
  by (subst GetForkPoint_loop.simps) (simp add: canonical_def)

text \<open>Whatever the specification's walk reaches, the code returns.\<close>

lemma GetForkPoint_loop_walk:
  "spec_fork_walk s b path forkPoint \<Longrightarrow>
     GetForkPoint_loop s (Some b) acc = Some (Inr (Inr (forkPoint, acc @ path)))"
proof (induction arbitrary: acc rule: spec_fork_walk.induct)
  case (found s b)
  then show ?case by (simp add: GetForkPoint_loop_canonical)
next
  case (parent s b p path forkPoint)
  then show ?case by (simp add: GetForkPoint_loop_parent)
qed

lemma GetForkPoint_loop_fail:
  "spec_fork_fail s b err \<Longrightarrow> GetForkPoint_loop s (Some b) acc = Some (Inr (Inl err))"
proof (induction arbitrary: acc rule: spec_fork_fail.induct)
  case (genesis s b)
  then show ?case by (simp add: GetForkPoint_loop_genesis)
next
  case (missing s b)
  then show ?case by (simp add: GetForkPoint_loop_missing)
next
  case (parent s b p err)
  then show ?case by (simp add: GetForkPoint_loop_parent)
qed

text \<open>
  Where heights fall along stored parent links, the walk ends: at a canonical block, at
  height 0, or at a missing parent.
\<close>

lemma fork_walk_or_fail:
  assumes stored: "\<forall>h x. blocks s h = Some x \<longrightarrow> parent_lower s x"
  shows "parent_lower s b \<Longrightarrow>
     (\<exists>path forkPoint. spec_fork_walk s b path forkPoint) \<or> (\<exists>err. spec_fork_fail s b err)"
proof (induction "unat (block_number b)" arbitrary: b rule: less_induct)
  case less
  show ?case
  proof (cases "canonical s b")
    case True
    then show ?thesis by (blast intro: spec_fork_walk.found)
  next
    case nc: False
    show ?thesis
    proof (cases "block_number b = 0")
      case True
      with nc show ?thesis by (blast intro: spec_fork_fail.genesis)
    next
      case nz: False
      show ?thesis
      proof (cases "GetBlock s (prev_header_hash b)")
        case None
        with nc nz show ?thesis by (blast intro: spec_fork_fail.missing)
      next
        case (Some p)
        with less.prems nz have "block_number p < block_number b"
          by (simp add: parent_lower_def)
        then have lt: "unat (block_number p) < unat (block_number b)"
          by (simp add: word_less_nat_alt)
        from Some stored have "parent_lower s p"
          by (simp add: GetBlock_def)
        from less.hyps [OF lt this] nc nz Some show ?thesis
          by (blast intro: spec_fork_walk.parent spec_fork_fail.parent)
      qed
    qed
  qed
qed

text \<open>
  Whatever the code returns, the walk reaches (by fixpoint induction, with no assumption
  on the store); the code never panics on a block that is not nil.
\<close>

lemma GetForkPoint_loop_sound:
  assumes run: "GetForkPoint_loop s (Some b) acc = Some r"
  shows "case r of
           Inl f \<Rightarrow> False
         | Inr (Inl err) \<Rightarrow> spec_fork_fail s b err
         | Inr (Inr (forkPoint, p)) \<Rightarrow> \<exists>path. p = acc @ path \<and> spec_fork_walk s b path forkPoint"
proof -
  let ?P = "\<lambda>(s :: store) (blk :: block option) (acc :: bytes list)
      (r :: fault + error + bytes \<times> bytes list). \<forall>b. blk = Some b \<longrightarrow>
     (case r of
        Inl f \<Rightarrow> False
      | Inr (Inl err) \<Rightarrow> spec_fork_fail s b err
      | Inr (Inr (forkPoint, p)) \<Rightarrow> \<exists>path. p = acc @ path \<and> spec_fork_walk s b path forkPoint)"
  have "?P s (Some b) acc r"
  proof (rule GetForkPoint_loop.raw_induct [OF _ run])
    fix loop and s :: store and blk :: "block option" and acc :: "bytes list"
      and r :: "fault + error + bytes \<times> bytes list"
    assume IH: "\<And>s blk acc r. loop s blk acc = Some r \<Longrightarrow> ?P s blk acc r"
      and body: "(case blk of
          None \<Rightarrow> Some (Inl NilDereference)
        | Some b \<Rightarrow>
            if (case GetBlockByNumber s (block_number b) of
                  None \<Rightarrow> False
                | Some mainchainBlock \<Rightarrow> header_hash mainchainBlock = header_hash b)
            then Some (Inr (Inr (header_hash b, acc)))
            else if block_number b = 0 then Some (Inr (Inl AlternateGenesisDiffers))
            else
              (case GetBlock s (prev_header_hash b) of
                 None \<Rightarrow> Some (Inr (Inl KeyNotFound))
               | Some b' \<Rightarrow> loop s (Some b') (acc @ [header_hash b]))) = Some r"
    show "?P s blk acc r"
    proof (intro allI impI)
      fix b assume blk: "blk = Some b"
      show "case r of
           Inl f \<Rightarrow> False
         | Inr (Inl err) \<Rightarrow> spec_fork_fail s b err
         | Inr (Inr (forkPoint, p)) \<Rightarrow> \<exists>path. p = acc @ path \<and> spec_fork_walk s b path forkPoint"
      proof (cases "canonical s b")
        case True
        with body blk have "r = Inr (Inr (header_hash b, acc))"
          by (simp add: canonical_def)
        with True show ?thesis
          by (simp add: spec_fork_walk.found)
      next
        case nc: False
        show ?thesis
        proof (cases "block_number b = 0")
          case True
          with nc body blk have "r = Inr (Inl AlternateGenesisDiffers)"
            by (simp add: canonical_def)
          with nc True show ?thesis
            by (simp add: spec_fork_fail.genesis)
        next
          case nz: False
          show ?thesis
          proof (cases "GetBlock s (prev_header_hash b)")
            case None
            with nc nz body blk have "r = Inr (Inl KeyNotFound)"
              by (simp add: canonical_def)
            with nc nz None show ?thesis
              by (simp add: spec_fork_fail.missing)
          next
            case (Some p)
            with nc nz body blk have "loop s (Some p) (acc @ [header_hash b]) = Some r"
              by (simp add: canonical_def)
            from IH [OF this] have
              "case r of
                 Inl f \<Rightarrow> False
               | Inr (Inl err) \<Rightarrow> spec_fork_fail s p err
               | Inr (Inr (forkPoint, q)) \<Rightarrow>
                   \<exists>path. q = (acc @ [header_hash b]) @ path \<and> spec_fork_walk s p path forkPoint"
              by simp
            with nc nz Some show ?thesis
              by (auto split: sum.splits intro: spec_fork_walk.parent spec_fork_fail.parent)
          qed
        qed
      qed
    qed
  qed
  then show ?thesis by simp
qed

lemma GetForkPoint_sound:
  assumes "GetForkPoint s (Some b) = Some r"
  shows "case r of
           Inl f \<Rightarrow> False
         | Inr (Inl err) \<Rightarrow> spec_fork_fail s b err
         | Inr (Inr (forkPoint, path)) \<Rightarrow> spec_fork_walk s b path forkPoint"
  using GetForkPoint_loop_sound [of s b "[]" r] assms
  by (auto simp add: GetForkPoint_def split: sum.splits)

text \<open>
  C9. Where heights fall along stored parent links, \<^verbatim>\<open>GetForkPoint\<close> returns. It
  returns the header hash of the first canonical block on the walk up the parent links
  together with the header hashes of the blocks visited before it, or an error when the
  walk reaches height 0 or a missing parent before any canonical block.
\<close>

theorem GetForkPoint_walks_to_canonical_ancestor:
  assumes "parent_lower s b" and "\<forall>h x. blocks s h = Some x \<longrightarrow> parent_lower s x"
  shows "\<exists>r. GetForkPoint s (Some b) = Some (Inr r)
           \<and> (case r of
                 Inr (forkPoint, path) \<Rightarrow> spec_fork_walk s b path forkPoint
               | Inl err \<Rightarrow> spec_fork_fail s b err)"
proof -
  from fork_walk_or_fail [OF assms(2) assms(1)]
  consider path forkPoint where "spec_fork_walk s b path forkPoint"
    | err where "spec_fork_fail s b err"
    by blast
  then show ?thesis
  proof cases
    case 1
    then show ?thesis
      using GetForkPoint_loop_walk [of s b path forkPoint "[]"] by (simp add: GetForkPoint_def)
  next
    case 2
    then show ?thesis
      using GetForkPoint_loop_fail [of s b err "[]"] by (simp add: GetForkPoint_def)
  qed
qed

theorem GetForkPoint_walks_to_canonical_ancestor_witness:
  "parent_lower (state ex_chain_fork) ex_B2x
   \<and> \<not> canonical (state ex_chain_fork) ex_B2x
   \<and> GetForkPoint (state ex_chain_fork) (Some ex_B2x) = Some (Inr (Inr (''G'', [''B2x'', ''B1x''])))
   \<and> spec_fork_walk (state ex_chain_fork) ex_B2x [''B2x'', ''B1x''] ''G''"
proof -
  have b: "parent_lower (state ex_chain_fork) ex_B2x"
    by (simp add: parent_lower_def GetBlock_def commit_def ex_defs)
  have stored: "\<forall>h x. blocks (state ex_chain_fork) h = Some x \<longrightarrow> parent_lower (state ex_chain_fork) x"
    by (auto simp add: parent_lower_def GetBlock_def commit_def ex_defs split: if_splits)
  have nc: "\<not> canonical (state ex_chain_fork) ex_B2x"
    by (simp add: canonical_def GetBlockByNumber_def commit_def ex_defs)
  have run: "GetForkPoint (state ex_chain_fork) (Some ex_B2x) = Some (Inr (Inr (''G'', [''B2x'', ''B1x''])))"
    by (simp add: GetForkPoint_def GetForkPoint_loop.simps GetBlock_def GetBlockByNumber_def
        commit_def ex_defs)
  from GetForkPoint_walks_to_canonical_ancestor [OF b stored] run b nc
  show ?thesis by auto
qed

subsection \<open>Applying a branch\<close>

text \<open>The first loop computes the start of the remaining path.\<close>

lemma AddChain_start_index:
  "AddChain_start hs tipHash i =
     (if tipHash \<in> set hs then i + length (takeWhile (\<lambda>h. h \<noteq> tipHash) hs) + 1 else 0)"
  by (induction hs arbitrary: i) auto

lemma drop_AddChain_start:
  "drop (AddChain_start hs tipHash 0) hs = spec_remaining_path hs tipHash"
proof (cases "tipHash \<in> set hs")
  case True
  have "drop (Suc (length (takeWhile P hs))) hs = tl (dropWhile P hs)" for P
    by (simp add: drop_Suc dropWhile_eq_drop tl_drop)
  with True show ?thesis
    by (simp add: AddChain_start_index spec_remaining_path_def)
next
  case False
  then show ?thesis
    by (simp add: AddChain_start_index spec_remaining_path_def)
qed

text \<open>With a batch, applying a block and updating the chain state only extend the batch.\<close>

lemma applyBlock_batch:
  "applyBlock e s b (Some ws) =
     (case apply_state_changes e b (GetAddressesState s (prepare_addresses_list e b)) of
        (ok, as) \<Rightarrow>
          if ok \<and> \<not> write_fails e (W_PutAddressesState as)
          then (True, s, Some (ws @ [W_PutAddressesState as]))
          else (False, s, Some ws))"
  by (auto simp add: applyBlock_def store_put_def Let_def split: prod.splits bool.splits)

lemma updateChainState_batch:
  "updateChainState e c b (Some ws) =
     (c\<lparr>lastBlock := Some b, txPool := txPool c @ [RemoveTxInBlock b]\<rparr>,
      Some (ws @ filter (\<lambda>w. \<not> write_fails e w)
        [W_PutBlockNumberMapping (block_number b)
           \<lparr>headerhash = header_hash b, prev_headerhash = prev_header_hash b\<rparr>,
         W_PutChainHeight (block_number b),
         W_UpdateTxMetadata b]))"
  by (simp add: updateChainState_def updateBlockNumberMapping_def store_put_def Let_def)

lemma AddChain_loop_Cons_apply:
  assumes "GetBlock (state c) h = Some b"
    and "apply_state_changes e b (GetAddressesState (state c) (prepare_addresses_list e b)) = (True, as)"
    and "\<not> write_fails e (W_PutAddressesState as)"
  shows "AddChain_loop e c (h # hs) =
     AddChain_loop e (c\<lparr>lastBlock := Some b, txPool := txPool c @ [RemoveTxInBlock b],
          state := commit (block_batch e as b) (state c)\<rparr>) hs"
  using assms
  by (simp add: applyBlock_batch updateChainState_batch WriteBatch_def block_batch_def)

lemma AddChain_loop_Cons_abort:
  assumes "GetBlock (state c) h = Some b"
    and "apply_state_changes e b (GetAddressesState (state c) (prepare_addresses_list e b)) = (ok, as)"
    and "\<not> ok \<or> write_fails e (W_PutAddressesState as)"
  shows "AddChain_loop e c (h # hs) = Inr (False, c)"
  using assms
  by (auto simp add: applyBlock_batch)

lemma blocks_fold_apply_write:
  "\<forall>w \<in> set ws. \<forall>x. w \<noteq> W_PutBlock x \<Longrightarrow> blocks (fold apply_write ws s) = blocks s"
proof (induction ws arbitrary: s)
  case Nil
  then show ?case by simp
next
  case (Cons w ws)
  then have "blocks (apply_write w s) = blocks s"
    by (cases w) auto
  with Cons show ?case by simp
qed

lemma fork_state_fold_apply_write:
  "\<forall>w \<in> set ws. (\<forall>x. w \<noteq> W_PutForkState x) \<and> w \<noteq> W_DeleteForkState \<Longrightarrow>
     fork_state_db (fold apply_write ws s) = fork_state_db s"
proof (induction ws arbitrary: s)
  case Nil
  then show ?case by simp
next
  case (Cons w ws)
  then have "fork_state_db (apply_write w s) = fork_state_db s"
    by (cases w) auto
  with Cons show ?case by simp
qed

lemma blocks_block_batch: "blocks (commit (block_batch e as b) s) = blocks s"
  by (simp add: commit_def blocks_fold_apply_write block_batch_def)

lemma fork_state_block_batch: "fork_state_db (commit (block_batch e as b) s) = fork_state_db s"
  by (simp add: commit_def fork_state_fold_apply_write block_batch_def)

text \<open>The second loop follows the specification, by induction on the remaining path.\<close>

lemma AddChain_loop_spec:
  "\<forall>h \<in> set hs. blocks (state c) h \<noteq> None \<Longrightarrow>
     \<exists>r c'. AddChain_loop e c hs = Inr (r, c') \<and> spec_add_chain e c hs r c'"
proof (induction hs arbitrary: c)
  case Nil
  then show ?case by (auto intro: spec_add_chain.finish)
next
  case (Cons h hs)
  then obtain b where b: "GetBlock (state c) h = Some b"
    by (auto simp add: GetBlock_def)
  obtain ok as where ap:
    "apply_state_changes e b (GetAddressesState (state c) (prepare_addresses_list e b)) = (ok, as)"
    by (cases "apply_state_changes e b (GetAddressesState (state c) (prepare_addresses_list e b))")
  show ?case
  proof (cases "ok \<and> \<not> write_fails e (W_PutAddressesState as)")
    case True
    let ?c = "c\<lparr>lastBlock := Some b, txPool := txPool c @ [RemoveTxInBlock b],
          state := commit (block_batch e as b) (state c)\<rparr>"
    from Cons.prems have "\<forall>h \<in> set hs. blocks (state ?c) h \<noteq> None"
      by (simp add: blocks_block_batch)
    from Cons.IH [OF this] obtain r c' where
      "AddChain_loop e ?c hs = Inr (r, c')" and "spec_add_chain e ?c hs r c'"
      by blast
    with b ap True show ?thesis
      using AddChain_loop_Cons_apply [of c h b e as hs] spec_add_chain.step [of c h b e as hs r c']
      by auto
  next
    case False
    with b ap show ?thesis
      using AddChain_loop_Cons_abort [of c h b e ok as hs] spec_add_chain.abort [of c h b e ok as hs]
      by auto
  qed
qed

lemma spec_add_chain_fork_state:
  "spec_add_chain e c hs r c' \<Longrightarrow>
     fork_state_db (state c') = (if r then None else fork_state_db (state c))"
proof (induction rule: spec_add_chain.induct)
  case (finish e c)
  then show ?case by (simp add: commit_def)
next
  case (abort c h b e ok as hs)
  then show ?case by simp
next
  case (step c h b e as hs r c')
  then show ?case by (simp add: fork_state_block_batch)
qed

text \<open>One commit per applied block, and one more for deleting the fork state.\<close>

lemma spec_add_chain_journal:
  "spec_add_chain e c hs r c' \<Longrightarrow>
     \<exists>k \<le> length hs. (r \<longleftrightarrow> k = length hs)
        \<and> length (journal (state c')) = length (journal (state c)) + k + (if r then 1 else 0)"
proof (induction rule: spec_add_chain.induct)
  case (finish e c)
  then show ?case by (simp add: journal_commit)
next
  case (abort c h b e ok as hs)
  then show ?case by simp
next
  case (step c h b e as hs r c')
  then obtain k where "k \<le> length hs" "r \<longleftrightarrow> k = length hs"
    "length (journal (state c')) = length (journal (state c)) + Suc k + (if r then 1 else 0)"
    by (auto simp add: journal_commit)
  then show ?case
    by (intro exI [of _ "Suc k"]) simp
qed

text \<open>
  C6. With a tip, and the hashes that remain after the skipped prefix all stored,
  \<^verbatim>\<open>AddChain\<close> returns, and it does what the specification says: the prefix up to
  and including the tip's hash is skipped; each remaining block is loaded, applied, made
  the tip and committed in a batch of its own; at the first block that does not apply
  the result is false and the fork state is left in the store; after the last block the
  fork state is deleted and the result is true.
\<close>

theorem AddChain_applies_remaining_path:
  assumes "lastBlock c = Some tip"
    and "\<forall>h \<in> set (spec_remaining_path hashPath (header_hash tip)). blocks (state c) h \<noteq> None"
  shows "\<exists>r c'. AddChain e c hashPath = Inr (r, c')
           \<and> spec_add_chain e c (spec_remaining_path hashPath (header_hash tip)) r c'
           \<and> fork_state_db (state c') = (if r then None else fork_state_db (state c))"
proof -
  have eq: "AddChain e c hashPath = AddChain_loop e c (spec_remaining_path hashPath (header_hash tip))"
  proof (cases "hashPath = []")
    case True
    then show ?thesis by (simp add: AddChain_def spec_remaining_path_def)
  next
    case False
    with assms(1) show ?thesis by (simp add: AddChain_def drop_AddChain_start)
  qed
  from AddChain_loop_spec [OF assms(2), of e] obtain r c' where
    loop: "AddChain_loop e c (spec_remaining_path hashPath (header_hash tip)) = Inr (r, c')"
    and spec: "spec_add_chain e c (spec_remaining_path hashPath (header_hash tip)) r c'"
    by blast
  from spec have fs: "fork_state_db (state c') = (if r then None else fork_state_db (state c))"
    by (rule spec_add_chain_fork_state)
  from eq loop have "AddChain e c hashPath = Inr (r, c')"
    by simp
  with spec fs show ?thesis
    by (intro exI [of _ r] exI [of _ c'] conjI)
qed


theorem AddChain_applies_remaining_path_witness:
  "lastBlock (ex_chain_fork\<lparr>lastBlock := Some ex_G\<rparr>) = Some ex_G
   \<and> spec_remaining_path [''B1x'', ''B2x''] (header_hash ex_G) = [''B1x'', ''B2x'']
   \<and> (\<exists>c'. AddChain ex_env (ex_chain_fork\<lparr>lastBlock := Some ex_G\<rparr>) [''B1x'', ''B2x''] = Inr (True, c')
         \<and> spec_add_chain ex_env (ex_chain_fork\<lparr>lastBlock := Some ex_G\<rparr>) [''B1x'', ''B2x''] True c'
         \<and> lastBlock c' = Some ex_B2x
         \<and> chain_height (state c') = Some 2
         \<and> fork_state_db (state c') = None)"
proof -
  let ?c = "ex_chain_fork\<lparr>lastBlock := Some ex_G\<rparr>"
  have tip: "lastBlock ?c = Some ex_G"
    by simp
  have rest: "spec_remaining_path [''B1x'', ''B2x''] (header_hash ex_G) = [''B1x'', ''B2x'']"
    by (simp add: spec_remaining_path_def ex_G_def)
  have stored: "\<forall>h \<in> set (spec_remaining_path [''B1x'', ''B2x''] (header_hash ex_G)). blocks (state ?c) h \<noteq> None"
    by (simp add: rest) (simp add: commit_def ex_defs)
  have run: "\<exists>c'. AddChain ex_env ?c [''B1x'', ''B2x''] = Inr (True, c')
      \<and> lastBlock c' = Some ex_B2x \<and> chain_height (state c') = Some 2"
    by (simp add: AddChain_def applyBlock_def updateChainState_def updateBlockNumberMapping_def
        store_put_def GetBlock_def GetAddressesState_def WriteBatch_def commit_def Let_def ex_defs)
  from AddChain_applies_remaining_path [OF tip stored, of ex_env] run tip rest
  show ?thesis by auto
qed

text \<open>Resuming with the tip already on the path, and stopping at a block that does not apply.\<close>

lemma AddChain_resumes_after_tip:
  "spec_remaining_path [''B1x'', ''B2x''] (header_hash ex_B1x) = [''B2x'']
   \<and> (\<exists>c'. AddChain ex_env (ex_chain_fork\<lparr>lastBlock := Some ex_B1x\<rparr>) [''B1x'', ''B2x''] = Inr (True, c')
         \<and> lastBlock c' = Some ex_B2x
         \<and> length (journal (state c')) = 3)"
  by (simp add: spec_remaining_path_def AddChain_def applyBlock_def updateChainState_def
      updateBlockNumberMapping_def store_put_def GetBlock_def GetAddressesState_def WriteBatch_def
      commit_def Let_def ex_defs)

lemma AddChain_stops_at_first_failure:
  "AddChain ex_env (ex_chain\<lparr>state := commit [W_PutBlock ex_Bbad] ex_store\<rparr>) [''Bbad'', ''B1x'']
     = Inr (False, ex_chain\<lparr>state := commit [W_PutBlock ex_Bbad] ex_store\<rparr>)"
  by (simp add: AddChain_def applyBlock_def store_put_def GetBlock_def commit_def Let_def ex_defs)

end
